theory Spec2Isabelle
  imports Complex_Main "HOL-Library.Word"
begin

unbundle bit_operations_syntax

section \<open>Buffers, errors and arbitrary-size integers\<close>

text \<open>
  A Node.js \<^verbatim>\<open>Buffer\<close> is a sequence of octets. Offsets are JavaScript numbers that
  only ever hold integers here, so they are \<^typ>\<open>int\<close>: the bitwise operators
  \<^verbatim>\<open>>>\<close> and \<^verbatim>\<open>&\<close> work on the two's complement reading, as \<open>drop_bit\<close> and
  \<open>AND\<close> on \<^typ>\<open>int\<close> do. A \<^verbatim>\<open>Bignum\<close> (the arbitrary-size integer of the
  repository) is an \<^typ>\<open>int\<close> as well, with exact \<^verbatim>\<open>add\<close>, \<^verbatim>\<open>subtract\<close>,
  \<^verbatim>\<open>lessThan\<close> and \<^verbatim>\<open>toNumber\<close>. Calls that only log (\<^verbatim>\<open>VerboseLogging\<close>,
  \<^verbatim>\<open>console.log\<close>, \<^verbatim>\<open>console.trace\<close>) leave the result as it is and are left out.
  An exception is an \<open>Inl\<close> result.
\<close>

type_synonym byte = "8 word"
type_synonym Buffer = "byte list"

datatype ConnectionErrorCodes = PROTOCOL_VIOLATION

datatype error = RangeError | TypeError | QuicError ConnectionErrorCodes

text \<open>\<^verbatim>\<open>buf.readUInt8(offset)\<close>: raises a RangeError outside \<open>[0, length)\<close>.\<close>

definition Buffer_readUInt8 :: "Buffer \<Rightarrow> int \<Rightarrow> error + int" where
  "Buffer_readUInt8 buf offset =
     (if 0 \<le> offset \<and> offset < int (length buf) then Inr (uint (buf ! nat offset))
      else Inl RangeError)"

text \<open>
  \<^verbatim>\<open>buf.slice(start, end)\<close>: never raises; a negative index counts from the end and
  both indices are clamped to the buffer.
\<close>

definition Buffer_slice :: "Buffer \<Rightarrow> int \<Rightarrow> int \<Rightarrow> Buffer" where
  "Buffer_slice buf start end' =
     (let len = int (length buf);
          s = (if start < 0 then max (len + start) 0 else min start len);
          e = (if end' < 0 then max (len + end') 0 else min end' len)
      in take (nat (e - s)) (drop (nat s) buf))"

text \<open>
  \<^verbatim>\<open>Buffer.alloc(size)\<close>: a zero-filled buffer; a negative size or one above the
  runtime's \<^verbatim>\<open>kMaxLength\<close> raises a RangeError.
\<close>

definition kMaxLength :: int where
  "kMaxLength = 2 ^ 31 - 1"

definition Buffer_alloc :: "int \<Rightarrow> error + Buffer" where
  "Buffer_alloc size' =
     (if 0 \<le> size' \<and> size' \<le> kMaxLength then Inr (replicate (nat size') 0)
      else Inl RangeError)"

text \<open>
  \<^verbatim>\<open>source.copy(target, 0, sourceStart, sourceEnd)\<close>, returning the target as it is
  afterwards: the bytes copied are limited by the room in the target and by the end of
  the source.
\<close>

definition Buffer_copy :: "Buffer \<Rightarrow> Buffer \<Rightarrow> int \<Rightarrow> int \<Rightarrow> error + Buffer" where
  "Buffer_copy source target sourceStart sourceEnd =
     (if sourceStart < 0 \<or> int (length source) < sourceStart \<or> sourceEnd < 0 then Inl RangeError
      else if target = [] \<or> sourceEnd \<le> sourceStart then Inr target
      else
        let nb = min (min (sourceEnd - sourceStart) (int (length target)))
                     (int (length source) - sourceStart)
        in Inr (take (nat nb) (drop (nat sourceStart) source) @ drop (nat nb) target))"

section \<open>Variable-length integers\<close>

record VLIEOffset =
  vlie_value :: int
  vlie_offset :: int

definition be_value :: "byte list \<Rightarrow> int" where
  "be_value bs = foldl (\<lambda>acc b. acc * 256 + uint b) 0 bs"

text \<open>
  Modelled from the spec: \<^verbatim>\<open>VLIE.decode\<close> (crypto/vlie, not among the source files).
  The first two bits of the byte at \<open>offset\<close> select a width of 1, 2, 4 or 8 bytes;
  they are masked off and the remaining bits are read big-endian across the width; a
  bounds error is raised when fewer bytes remain than the width requires.
\<close>

definition VLIE_decode :: "Buffer \<Rightarrow> int \<Rightarrow> error + VLIEOffset" where
  "VLIE_decode buf offset =
     (if offset < 0 \<or> int (length buf) \<le> offset then Inl RangeError
      else
        let b = buf ! nat offset;
            width = (2::int) ^ unat (drop_bit 6 b)
        in if int (length buf) < offset + width then Inl RangeError
           else Inr \<lparr> vlie_value =
                        be_value ((b AND 0x3F) # take (nat (width - 1)) (drop (nat offset + 1) buf)),
                      vlie_offset = offset + width \<rparr>)"

section \<open>Protocol values and headers\<close>

type_synonym Version = Buffer

record ConnectionID =
  cid_buffer :: Buffer
  cid_length :: int

datatype PacketNumber =
    PacketNumber_Buffer Buffer
  | PacketNumber_Bignum int
  | PacketNumber_Number int

datatype HeaderType = HT_LongHeader | HT_ShortHeader | HT_VersionNegotiationHeader

text \<open>
  Modelled from the spec: the enum \<^verbatim>\<open>LongHeaderType\<close> (packet/header/long.header, not
  among the source files): 0 = Initial, 1 = 0-RTT, 2 = Handshake, 3 = Retry.
\<close>

definition LongHeaderType_Initial :: int where "LongHeaderType_Initial = 0"
definition LongHeaderType_Protected0RTT :: int where "LongHeaderType_Protected0RTT = 1"
definition LongHeaderType_Handshake :: int where "LongHeaderType_Handshake = 2"
definition LongHeaderType_Retry :: int where "LongHeaderType_Retry = 3"

text \<open>
  The header classes are data carriers that are not among the source files; each is the
  record of what its constructor and setters are given. The parser builds a LongHeader
  from (type, destination, source, payload length, version, payload length bytes), the
  packet factory from (type, destination, source, packet number, payload length,
  version). A field that no call has set is \<open>None\<close> (\<^verbatim>\<open>undefined\<close>).
\<close>

record LongHeader =
  lh_type :: int
  lh_destConnectionID :: ConnectionID
  lh_srcConnectionID :: ConnectionID
  lh_packetNumber :: "PacketNumber option"
  lh_payloadLength :: "int option"
  lh_version :: Version
  lh_payloadLengthBuffer :: "Buffer option"
  lh_truncatedPacketNumber :: "PacketNumber option"
  lh_largestAcked :: "PacketNumber option"
  lh_initialTokens :: "Buffer option"
  lh_parsedBuffer :: "Buffer option"

record ShortHeader =
  sh_destConnectionID :: ConnectionID
  sh_keyPhaseBit :: bool
  sh_spinBit :: bool
  sh_truncatedPacketNumber :: "PacketNumber option"
  sh_largestAcked :: "PacketNumber option"
  sh_parsedBuffer :: "Buffer option"

record VersionNegotiationHeader =
  vn_type :: "int option"
  vn_destConnectionID :: "ConnectionID option"
  vn_srcConnectionID :: ConnectionID

datatype BaseHeader =
    LongHdr LongHeader
  | ShortHdr ShortHeader
  | VersionNegotiationHdr VersionNegotiationHeader

record HeaderOffset =
  ho_header :: BaseHeader
  ho_offset :: int

definition new_LongHeader ::
  "int \<Rightarrow> ConnectionID \<Rightarrow> ConnectionID \<Rightarrow> int \<Rightarrow> Version \<Rightarrow> Buffer \<Rightarrow> LongHeader" where
  "new_LongHeader type destConnectionID srcConnectionID payloadLength version payloadLengthBuffer =
     \<lparr> lh_type = type, lh_destConnectionID = destConnectionID,
       lh_srcConnectionID = srcConnectionID, lh_packetNumber = None,
       lh_payloadLength = Some payloadLength, lh_version = version,
       lh_payloadLengthBuffer = Some payloadLengthBuffer, lh_truncatedPacketNumber = None,
       lh_largestAcked = None, lh_initialTokens = None, lh_parsedBuffer = None \<rparr>"

definition new_ShortHeader :: "ConnectionID \<Rightarrow> bool \<Rightarrow> bool \<Rightarrow> ShortHeader" where
  "new_ShortHeader destConnectionID keyPhaseBit spinBit =
     \<lparr> sh_destConnectionID = destConnectionID, sh_keyPhaseBit = keyPhaseBit,
       sh_spinBit = spinBit, sh_truncatedPacketNumber = None, sh_largestAcked = None,
       sh_parsedBuffer = None \<rparr>"

definition new_VersionNegotiationHeader ::
  "ConnectionID \<Rightarrow> ConnectionID \<Rightarrow> VersionNegotiationHeader" where
  "new_VersionNegotiationHeader destConnectionID srcConnectionID =
     \<lparr> vn_type = None, vn_destConnectionID = Some destConnectionID,
       vn_srcConnectionID = srcConnectionID \<rparr>"

text \<open>
  Modelled from the spec: \<^verbatim>\<open>BaseHeader.setTruncatedPacketNumber\<close> (not among the
  source files) attaches the truncated packet number, which is to be reconstructed
  against a last-acknowledged packet number. The reconstruction is outside the source
  files, so the header keeps both arguments of the call.
\<close>

definition lh_setTruncatedPacketNumber :: "LongHeader \<Rightarrow> PacketNumber \<Rightarrow> PacketNumber \<Rightarrow> LongHeader" where
  "lh_setTruncatedPacketNumber h truncatedPacketNumber largestAcked =
     h\<lparr> lh_truncatedPacketNumber := Some truncatedPacketNumber, lh_largestAcked := Some largestAcked \<rparr>"

definition sh_setTruncatedPacketNumber :: "ShortHeader \<Rightarrow> PacketNumber \<Rightarrow> PacketNumber \<Rightarrow> ShortHeader" where
  "sh_setTruncatedPacketNumber h truncatedPacketNumber largestAcked =
     h\<lparr> sh_truncatedPacketNumber := Some truncatedPacketNumber, sh_largestAcked := Some largestAcked \<rparr>"

definition getHeaderType :: "BaseHeader \<Rightarrow> HeaderType" where
  "getHeaderType h =
     (case h of LongHdr _ \<Rightarrow> HT_LongHeader | ShortHdr _ \<Rightarrow> HT_ShortHeader
      | VersionNegotiationHdr _ \<Rightarrow> HT_VersionNegotiationHeader)"

text \<open>The getters of the base class, \<open>None\<close> where a header variant has no such field.\<close>

definition getParsedBuffer :: "BaseHeader \<Rightarrow> Buffer option" where
  "getParsedBuffer h =
     (case h of LongHdr l \<Rightarrow> lh_parsedBuffer l | ShortHdr s \<Rightarrow> sh_parsedBuffer s
      | VersionNegotiationHdr _ \<Rightarrow> None)"

definition getPayloadLength :: "BaseHeader \<Rightarrow> int option" where
  "getPayloadLength h =
     (case h of LongHdr l \<Rightarrow> lh_payloadLength l | ShortHdr _ \<Rightarrow> None
      | VersionNegotiationHdr _ \<Rightarrow> None)"

definition getTruncatedPacketNumber :: "BaseHeader \<Rightarrow> PacketNumber option" where
  "getTruncatedPacketNumber h =
     (case h of LongHdr l \<Rightarrow> lh_truncatedPacketNumber l | ShortHdr s \<Rightarrow> sh_truncatedPacketNumber s
      | VersionNegotiationHdr _ \<Rightarrow> None)"

definition getLargestAcked :: "BaseHeader \<Rightarrow> PacketNumber option" where
  "getLargestAcked h =
     (case h of LongHdr l \<Rightarrow> lh_largestAcked l | ShortHdr s \<Rightarrow> sh_largestAcked s
      | VersionNegotiationHdr _ \<Rightarrow> None)"

definition getDestConnectionID :: "BaseHeader \<Rightarrow> ConnectionID option" where
  "getDestConnectionID h =
     (case h of LongHdr l \<Rightarrow> Some (lh_destConnectionID l)
      | ShortHdr s \<Rightarrow> Some (sh_destConnectionID s)
      | VersionNegotiationHdr v \<Rightarrow> vn_destConnectionID v)"

definition getSrcConnectionID :: "BaseHeader \<Rightarrow> ConnectionID option" where
  "getSrcConnectionID h =
     (case h of LongHdr l \<Rightarrow> Some (lh_srcConnectionID l)
      | ShortHdr _ \<Rightarrow> None
      | VersionNegotiationHdr v \<Rightarrow> Some (vn_srcConnectionID v))"

text \<open>
  Modelled from the spec: \<^verbatim>\<open>VersionValidation.IsVersionNegotationFlag\<close> (not among the
  source files): the version equals the all-zero sentinel \<^verbatim>\<open>0x00000000\<close>.
\<close>

definition IsVersionNegotationFlag :: "Version \<Rightarrow> bool" where
  "IsVersionNegotationFlag version = (version = [0, 0, 0, 0])"

section \<open>The header parser\<close>

text \<open>The decoding of a connection-ID length nibble, \<^verbatim>\<open>x === 0 ? x : x + 3\<close>.\<close>

definition decodeConnectionIDLength :: "int \<Rightarrow> int" where
  "decodeConnectionIDLength x = (if x = 0 then x else x + 3)"

definition parseVersionNegotiationHeader :: "Buffer \<Rightarrow> int \<Rightarrow> int \<Rightarrow> error + HeaderOffset" where
  "parseVersionNegotiationHeader buf offset type =
     (case Buffer_readUInt8 buf offset of Inl e \<Rightarrow> Inl e | Inr conLengths \<Rightarrow>
      let offset = offset + 1;
          destLength = drop_bit 4 conLengths;
          destLength = decodeConnectionIDLength destLength;
          srcLength = conLengths AND 0xF;
          srcLength = decodeConnectionIDLength srcLength;
          destConnectionID = \<lparr> cid_buffer = Buffer_slice buf offset (offset + destLength),
                               cid_length = destLength \<rparr>;
          offset = offset + destLength;
          srcConnectionID = \<lparr> cid_buffer = Buffer_slice buf offset (offset + srcLength),
                              cid_length = srcLength \<rparr>;
          offset = offset + srcLength;
          header = new_VersionNegotiationHeader destConnectionID srcConnectionID
      in Inr \<lparr> ho_header = VersionNegotiationHdr header, ho_offset = offset \<rparr>)"

text \<open>
  The Initial token of \<^verbatim>\<open>parseLongHeader\<close>: a variable-length token length and,
  when it is positive, that many bytes copied into a fresh buffer. The result is the
  token (if any) and the offset after it.
\<close>

definition parseInitialTokens :: "Buffer \<Rightarrow> int \<Rightarrow> error + (Buffer option \<times> int)" where
  "parseInitialTokens buf offset =
     (case VLIE_decode buf offset of Inl e \<Rightarrow> Inl e | Inr tokenLengthV \<Rightarrow>
      let tokenLength = vlie_value tokenLengthV;
          offset = vlie_offset tokenLengthV
      in if 0 < vlie_value tokenLengthV then
           (case Buffer_alloc tokenLength of Inl e \<Rightarrow> Inl e | Inr tokens \<Rightarrow>
            case Buffer_copy buf tokens offset (offset + tokenLength) of Inl e \<Rightarrow> Inl e
            | Inr tokens \<Rightarrow> Inr (Some tokens, offset + vlie_value tokenLengthV))
         else Inr (None, offset))"

definition parseLongHeader :: "Buffer \<Rightarrow> int \<Rightarrow> error + HeaderOffset" where
  "parseLongHeader buf offset =
     (let startOffset = offset in
      case Buffer_readUInt8 buf offset of Inl e \<Rightarrow> Inl e | Inr b0 \<Rightarrow>
      let offset = offset + 1;
          firstByte = b0 - 0xC0;
          type = drop_bit 4 firstByte
      in if type = LongHeaderType_Retry then Inl (QuicError PROTOCOL_VIOLATION)
      else
      let pnLength = firstByte AND 3;
          pnLength = pnLength + 1;
          version = Buffer_slice buf offset (offset + 4);
          offset = offset + 4
      in if IsVersionNegotationFlag version then parseVersionNegotiationHeader buf offset type
      else
      case Buffer_readUInt8 buf offset of Inl e \<Rightarrow> Inl e | Inr conLengths \<Rightarrow>
      let offset = offset + 1;
          dcil = drop_bit 4 conLengths;
          dcil = decodeConnectionIDLength dcil;
          scil = conLengths AND 15;
          scil = decodeConnectionIDLength scil;
          destConnectionID = \<lparr> cid_buffer = Buffer_slice buf offset (offset + dcil),
                               cid_length = dcil \<rparr>;
          offset = offset + dcil;
          srcConnectionID = \<lparr> cid_buffer = Buffer_slice buf offset (offset + scil),
                              cid_length = scil \<rparr>;
          offset = offset + scil
      in
      case (if type = LongHeaderType_Initial then parseInitialTokens buf offset
            else Inr (None, offset)) of Inl e \<Rightarrow> Inl e | Inr (tokens, offset) \<Rightarrow>
      case VLIE_decode buf offset of Inl e \<Rightarrow> Inl e | Inr payloadLengthV \<Rightarrow>
      let payloadLength = vlie_value payloadLengthV in
      case Buffer_alloc (vlie_offset payloadLengthV - offset) of Inl e \<Rightarrow> Inl e
      | Inr payloadLengthBuffer \<Rightarrow>
      case Buffer_copy buf payloadLengthBuffer offset (vlie_offset payloadLengthV) of
        Inl e \<Rightarrow> Inl e
      | Inr payloadLengthBuffer \<Rightarrow>
      let offset = vlie_offset payloadLengthV;
          truncatedPacketNumber = PacketNumber_Buffer (Buffer_slice buf offset (offset + pnLength));
          offset = offset + pnLength;
          header = new_LongHeader type destConnectionID srcConnectionID payloadLength version
                     payloadLengthBuffer;
          header = lh_setTruncatedPacketNumber header truncatedPacketNumber
                     (PacketNumber_Bignum 0);
          header = (case tokens of None \<Rightarrow> header
                    | Some t \<Rightarrow> header\<lparr> lh_initialTokens := Some t \<rparr>);
          parsedBuffer = Buffer_slice buf startOffset offset;
          header = header\<lparr> lh_parsedBuffer := Some parsedBuffer \<rparr>
      in Inr \<lparr> ho_header = LongHdr header, ho_offset = offset \<rparr>)"

definition parseShortHeader :: "Buffer \<Rightarrow> int \<Rightarrow> error + HeaderOffset" where
  "parseShortHeader buf offset =
     (let startOffset = offset in
      case Buffer_readUInt8 buf offset of Inl e \<Rightarrow> Inl e | Inr b0 \<Rightarrow>
      let offset = offset + 1;
          firstByte = b0 - 0x40;
          spinBit = (firstByte AND 0x20 = 0x20);
          reserved1 = (firstByte AND 0x10 = 0x10);
          reserved2 = (firstByte AND 0x08 = 0x08);
          keyPhaseBit = (firstByte AND 0x04 = 0x04);
          pnLength = firstByte AND 3;
          pnLength = pnLength + 1
      in
      case Buffer_readUInt8 buf offset of Inl e \<Rightarrow> Inl e | Inr dcil \<Rightarrow>
      case Buffer_alloc dcil of Inl e \<Rightarrow> Inl e | Inr destConIDBuffer \<Rightarrow>
      case Buffer_copy buf destConIDBuffer offset (offset + dcil) of Inl e \<Rightarrow> Inl e
      | Inr destConIDBuffer \<Rightarrow>
      let destConnectionID = \<lparr> cid_buffer = destConIDBuffer, cid_length = dcil \<rparr>;
          offset = offset + dcil;
          truncatedPacketNumber = PacketNumber_Buffer (Buffer_slice buf offset (offset + pnLength));
          offset = offset + pnLength;
          header = new_ShortHeader destConnectionID keyPhaseBit spinBit;
          header = sh_setTruncatedPacketNumber header truncatedPacketNumber
                     (PacketNumber_Bignum 0);
          parsedBuffer = Buffer_slice buf startOffset offset;
          header = header\<lparr> sh_parsedBuffer := Some parsedBuffer \<rparr>
      in Inr \<lparr> ho_header = ShortHdr header, ho_offset = offset \<rparr>)"

definition parseHeader :: "Buffer \<Rightarrow> int \<Rightarrow> error + HeaderOffset" where
  "parseHeader buf offset =
     (case Buffer_readUInt8 buf offset of Inl e \<Rightarrow> Inl e | Inr type \<Rightarrow>
      if type AND 0x80 = 0x80 then parseLongHeader buf offset
      else parseShortHeader buf offset)"

subsection \<open>What a successful parse has read\<close>

lemma Buffer_readUInt8_InrD:
  "Buffer_readUInt8 buf offset = Inr v \<Longrightarrow>
     0 \<le> offset \<and> offset < int (length buf) \<and> v = uint (buf ! nat offset) \<and> 0 \<le> v \<and> v < 256"
  using uint_bounded [of "buf ! nat offset"]
  by (auto simp: Buffer_readUInt8_def split: if_splits)

lemma be_value_nonneg_aux: "0 \<le> a \<Longrightarrow> 0 \<le> foldl (\<lambda>acc b. acc * 256 + uint (b::byte)) a bs"
  by (induction bs arbitrary: a) auto

lemma be_value_nonneg: "0 \<le> be_value bs"
  by (simp add: be_value_def be_value_nonneg_aux)

lemma vlie_prefix_bound: "unat (drop_bit 6 (b::byte)) < 4"
proof -
  have "unat b < 256" using unsigned_less [of b] by simp
  moreover have "unat (drop_bit 6 b) = unat b div 64"
    by (simp add: unat_div_distrib drop_bit_eq_div)
  ultimately show ?thesis by simp
qed

lemma vlie_width_cases:
  "(2::int) ^ unat (drop_bit 6 (b::byte)) \<in> {1, 2, 4, 8}"
proof -
  have "unat (drop_bit 6 b) < 4" by (rule vlie_prefix_bound)
  then consider "unat (drop_bit 6 b) = 0" | "unat (drop_bit 6 b) = 1" | "unat (drop_bit 6 b) = 2" | "unat (drop_bit 6 b) = 3"
    by linarith
  then show ?thesis by cases auto
qed

lemma VLIE_decode_InrD:
  "VLIE_decode buf offset = Inr r \<Longrightarrow>
     0 \<le> offset \<and> offset < vlie_offset r \<and> vlie_offset r \<le> int (length buf) \<and>
     vlie_offset r \<le> offset + 8 \<and> 0 \<le> vlie_value r"
  using vlie_width_cases [of "buf ! nat offset"]
  by (auto simp: VLIE_decode_def Let_def be_value_nonneg split: if_splits)

lemma parseInitialTokens_InrD:
  "parseInitialTokens buf offset = Inr (t, offset') \<Longrightarrow>
     0 \<le> offset \<and> offset < offset'"
  by (auto simp: parseInitialTokens_def Let_def split: sum.splits if_splits dest!: VLIE_decode_InrD)

lemma parseVersionNegotiationHeader_not_Long:
  "parseVersionNegotiationHeader buf offset type = Inr ho \<Longrightarrow> \<exists>v. ho_header ho = VersionNegotiationHdr v"
  by (auto simp: parseVersionNegotiationHeader_def Let_def split: sum.splits)

lemma parseShortHeader_not_Long:
  "parseShortHeader buf offset = Inr ho \<Longrightarrow> \<exists>s. ho_header ho = ShortHdr s"
  by (auto simp: parseShortHeader_def Let_def split: sum.splits)

lemma conLengths_nonneg:
  "0 \<le> (c::int) \<Longrightarrow> 0 \<le> decodeConnectionIDLength (drop_bit 4 c) \<and> 0 \<le> decodeConnectionIDLength (c AND 15)"
  by (simp add: decodeConnectionIDLength_def)

lemma parseLongHeader_LongE:
  assumes "parseLongHeader buf offset = Inr ho" and "ho_header ho = LongHdr l"
  obtains b0 c tokens off1 plv plb where
    "Buffer_readUInt8 buf offset = Inr b0"
    "drop_bit 4 (b0 - 192) \<noteq> LongHeaderType_Retry"
    "\<not> IsVersionNegotationFlag (Buffer_slice buf (offset + 1) (offset + 5))"
    "Buffer_readUInt8 buf (offset + 5) = Inr c"
    "(if drop_bit 4 (b0 - 192) = LongHeaderType_Initial
      then parseInitialTokens buf
             (offset + 6 + decodeConnectionIDLength (drop_bit 4 c) + decodeConnectionIDLength (c AND 15))
      else Inr (None, offset + 6 + decodeConnectionIDLength (drop_bit 4 c)
                        + decodeConnectionIDLength (c AND 15))) = Inr (tokens, off1)"
    "VLIE_decode buf off1 = Inr plv"
    "ho_offset ho = vlie_offset plv + ((b0 - 192) AND 3) + 1"
    "lh_type l = drop_bit 4 (b0 - 192)"
    "lh_destConnectionID l =
       \<lparr> cid_buffer = Buffer_slice buf (offset + 6)
                        (offset + 6 + decodeConnectionIDLength (drop_bit 4 c)),
         cid_length = decodeConnectionIDLength (drop_bit 4 c) \<rparr>"
    "lh_srcConnectionID l =
       \<lparr> cid_buffer = Buffer_slice buf (offset + 6 + decodeConnectionIDLength (drop_bit 4 c))
                        (offset + 6 + decodeConnectionIDLength (drop_bit 4 c)
                           + decodeConnectionIDLength (c AND 15)),
         cid_length = decodeConnectionIDLength (c AND 15) \<rparr>"
    "lh_packetNumber l = None"
    "lh_payloadLength l = Some (vlie_value plv)"
    "lh_version l = Buffer_slice buf (offset + 1) (offset + 5)"
    "Buffer_alloc (vlie_offset plv - off1) \<noteq> Inl RangeError"
    "lh_payloadLengthBuffer l = Some plb"
    "lh_truncatedPacketNumber l =
       Some (PacketNumber_Buffer (Buffer_slice buf (vlie_offset plv)
                                   (vlie_offset plv + ((b0 - 192) AND 3) + 1)))"
    "lh_largestAcked l = Some (PacketNumber_Bignum 0)"
    "lh_initialTokens l = tokens"
    "lh_parsedBuffer l = Some (Buffer_slice buf offset (ho_offset ho))"
  using assms
  apply (simp add: parseLongHeader_def Let_def new_LongHeader_def lh_setTruncatedPacketNumber_def
       split: sum.splits if_splits prod.splits option.splits)
  apply (auto dest!: parseVersionNegotiationHeader_not_Long simp: add_ac)
  done

lemma tokens_offset_ge:
  assumes "(if ty = LongHeaderType_Initial then parseInitialTokens buf off0 else Inr (None, off0))
             = Inr (tokens, off1)"
  shows "off0 \<le> off1"
  using assms by (auto split: if_splits dest!: parseInitialTokens_InrD)

lemma parseLongHeader_offset:
  assumes "parseLongHeader buf offset = Inr ho" and "ho_header ho = LongHdr l"
  shows "offset + 8 \<le> ho_offset ho \<and> (\<exists>pl. lh_payloadLength l = Some pl \<and> 0 \<le> pl)"
proof -
  from assms obtain b0 c tokens off1 plv where
    c: "Buffer_readUInt8 buf (offset + 5) = Inr c" and
    tok: "(if drop_bit 4 (b0 - 192) = LongHeaderType_Initial
      then parseInitialTokens buf
             (offset + 6 + decodeConnectionIDLength (drop_bit 4 c) + decodeConnectionIDLength (c AND 15))
      else Inr (None, offset + 6 + decodeConnectionIDLength (drop_bit 4 c)
                        + decodeConnectionIDLength (c AND 15))) = Inr (tokens, off1)" and
    plv: "VLIE_decode buf off1 = Inr plv" and
    off: "ho_offset ho = vlie_offset plv + ((b0 - 192) AND 3) + 1" and
    pl: "lh_payloadLength l = Some (vlie_value plv)"
    by (rule parseLongHeader_LongE)
  from c have "0 \<le> c" by (auto dest: Buffer_readUInt8_InrD)
  then have d: "0 \<le> decodeConnectionIDLength (drop_bit 4 c)" "0 \<le> decodeConnectionIDLength (c AND 15)"
    by (simp_all add: conLengths_nonneg)
  from tok have "offset + 6 + decodeConnectionIDLength (drop_bit 4 c) + decodeConnectionIDLength (c AND 15) \<le> off1"
    by (rule tokens_offset_ge)
  with d have "offset + 6 \<le> off1" by linarith
  moreover from plv have "off1 < vlie_offset plv" "0 \<le> vlie_value plv"
    by (auto dest: VLIE_decode_InrD)
  moreover obtain k where "0 \<le> k" "ho_offset ho = vlie_offset plv + k + 1"
    using off by (intro that [of "(b0 - 192) AND 3"]) simp_all
  ultimately show ?thesis using pl by auto
qed

lemma parseHeader_Long_offset:
  assumes "parseHeader buf offset = Inr ho" and "ho_header ho = LongHdr l"
  shows "offset + 8 \<le> ho_offset ho \<and> (\<exists>pl. lh_payloadLength l = Some pl \<and> 0 \<le> pl)"
proof -
  from assms have "parseLongHeader buf offset = Inr ho"
    by (auto simp: parseHeader_def split: sum.splits if_splits dest: parseShortHeader_not_Long)
  then show ?thesis using assms(2) by (rule parseLongHeader_offset)
qed

function parse_loop ::
  "Buffer \<Rightarrow> HeaderOffset \<Rightarrow> int \<Rightarrow> HeaderOffset list \<Rightarrow> error + HeaderOffset list" where
  "parse_loop buf headerOffset totalSize headerOffsets =
     (case ho_header headerOffset of
        LongHdr longHeader \<Rightarrow>
          (case lh_payloadLength longHeader of
             None \<Rightarrow> Inr headerOffsets
           | Some payloadLength \<Rightarrow>
               let headerSize = ho_offset headerOffset - totalSize;
                   totalSize = totalSize + payloadLength + headerSize
               in if totalSize < int (length buf) then
                    (case parseHeader buf (totalSize - 4) of
                       Inl e \<Rightarrow> Inl e
                     | Inr headerOffset \<Rightarrow>
                         parse_loop buf headerOffset totalSize (headerOffsets @ [headerOffset]))
                  else Inr headerOffsets)
      | _ \<Rightarrow> Inr headerOffsets)"
  by pat_completeness auto

definition parse_measure :: "Buffer \<Rightarrow> HeaderOffset \<Rightarrow> nat" where
  "parse_measure buf headerOffset =
     (case ho_header headerOffset of
        LongHdr longHeader \<Rightarrow>
          (case lh_payloadLength longHeader of
             None \<Rightarrow> 0
           | Some payloadLength \<Rightarrow>
               1 + nat (int (length buf) - (ho_offset headerOffset + payloadLength)))
      | _ \<Rightarrow> 0)"

lemma parse_measure_decreases:
  assumes "ho_header headerOffset = LongHdr longHeader"
    and "lh_payloadLength longHeader = Some payloadLength"
    and "totalSize + payloadLength + (ho_offset headerOffset - totalSize) < int (length buf)"
    and "parseHeader buf (totalSize + payloadLength + (ho_offset headerOffset - totalSize) - 4) = Inr ho'"
  shows "parse_measure buf ho' < parse_measure buf headerOffset"
proof (cases "ho_header ho'")
  case (LongHdr l')
  from parseHeader_Long_offset [OF assms(4) LongHdr]
  obtain pl' where "lh_payloadLength l' = Some pl'" "0 \<le> pl'"
    "totalSize + payloadLength + (ho_offset headerOffset - totalSize) - 4 + 8 \<le> ho_offset ho'"
    by auto
  then show ?thesis using assms(1-3) LongHdr by (simp add: parse_measure_def)
next
  case (ShortHdr s)
  then show ?thesis using assms(1-3) by (simp add: parse_measure_def)
next
  case (VersionNegotiationHdr v)
  then show ?thesis using assms(1-3) by (simp add: parse_measure_def)
qed

termination parse_loop
  by (relation "measure (\<lambda>(buf, headerOffset, totalSize, headerOffsets). parse_measure buf headerOffset)")
     (auto intro: parse_measure_decreases)

declare parse_loop.simps [simp del]

definition parse :: "Buffer \<Rightarrow> error + HeaderOffset list" where
  "parse buf =
     (case parseHeader buf 0 of
        Inl e \<Rightarrow> Inl e
      | Inr headerOffset \<Rightarrow> parse_loop buf headerOffset 0 [headerOffset])"

text \<open>An entry of the result whose header is a LongHeader.\<close>

definition isLong :: "HeaderOffset \<Rightarrow> bool" where
  "isLong ho = (getHeaderType (ho_header ho) = HT_LongHeader)"

section \<open>The packet factory\<close>

text \<open>
  Modelled from the spec: frames (frame/*, not among the source files) are opaque
  collaborators that produce bytes. A frame is its type and its serialized bytes; a
  padding frame is built from its length and serializes to that many zero bytes, so
  that it can be ``sized to exactly reach'' a given packet size.
\<close>

datatype FrameType = PADDING | CRYPTO | STREAM | ACK

datatype BaseFrame = PaddingFrame int | Frame FrameType Buffer

definition frame_getType :: "BaseFrame \<Rightarrow> FrameType" where
  "frame_getType f = (case f of PaddingFrame _ \<Rightarrow> PADDING | Frame t _ \<Rightarrow> t)"

definition frame_toBuffer :: "BaseFrame \<Rightarrow> Buffer" where
  "frame_toBuffer f = (case f of PaddingFrame n \<Rightarrow> replicate (nat n) 0 | Frame _ bytes \<Rightarrow> bytes)"

datatype PacketType = Initial | Handshake | Protected0RTT

text \<open>
  A packet with a long header pairs the header with its frames. The header object is
  shared with the packet, so a setter called on the header after the packet was built
  shows in the packet.
\<close>

record Packet =
  pkt_type :: PacketType
  pkt_header :: LongHeader
  pkt_frames :: "BaseFrame list"

record VersionNegotiationPacket =
  vnp_header :: VersionNegotiationHeader
  vnp_versions :: "Version list"

text \<open>
  Modelled from the spec: \<^verbatim>\<open>getFrameSizes\<close> and \<^verbatim>\<open>getSize\<close> of the packet classes
  (packet/packet/*, not among the source files). The first is the total serialized size
  of the frames, the second the total serialized size of the packet: the header's and
  the frames'. How many bytes a header serializes to is decided outside the source
  files; it is the parameter \<open>headerSize\<close>, which may depend on every field of the
  header.
\<close>

definition getFrameSizes :: "Packet \<Rightarrow> int" where
  "getFrameSizes p = sum_list (map (\<lambda>f. int (length (frame_toBuffer f))) (pkt_frames p))"

definition getSize :: "(LongHeader \<Rightarrow> int) \<Rightarrow> Packet \<Rightarrow> int" where
  "getSize headerSize p = headerSize (pkt_header p) + getFrameSizes p"

text \<open>The configuration constants (helpers/constants, not among the source files).\<close>

record Constants =
  INITIAL_MIN_SIZE :: int
  DEFAULT_AEAD_LENGTH :: int
  SUPPORTED_VERSIONS :: "string list"

text \<open>What the factory reads from the connection.\<close>

record Connection =
  conn_destConnectionID :: "ConnectionID option"
  conn_initialDestConnectionID :: ConnectionID
  conn_srcConnectionID :: ConnectionID
  conn_version :: Version
  conn_spinBit :: bool

definition new_LongHeader_factory ::
  "int \<Rightarrow> ConnectionID \<Rightarrow> ConnectionID \<Rightarrow> PacketNumber \<Rightarrow> int \<Rightarrow> Version \<Rightarrow> LongHeader" where
  "new_LongHeader_factory type destConnectionID srcConnectionID packetNumber payloadLength version =
     \<lparr> lh_type = type, lh_destConnectionID = destConnectionID,
       lh_srcConnectionID = srcConnectionID, lh_packetNumber = Some packetNumber,
       lh_payloadLength = Some payloadLength, lh_version = version,
       lh_payloadLengthBuffer = None, lh_truncatedPacketNumber = None,
       lh_largestAcked = None, lh_initialTokens = None, lh_parsedBuffer = None \<rparr>"

definition setPayloadLength :: "LongHeader \<Rightarrow> int \<Rightarrow> LongHeader" where
  "setPayloadLength h n = h\<lparr> lh_payloadLength := Some n \<rparr>"

definition new_VersionNegotiationHeader_factory ::
  "int \<Rightarrow> ConnectionID option \<Rightarrow> ConnectionID \<Rightarrow> VersionNegotiationHeader" where
  "new_VersionNegotiationHeader_factory type destConnectionID srcConnectionID =
     \<lparr> vn_type = Some type, vn_destConnectionID = destConnectionID,
       vn_srcConnectionID = srcConnectionID \<rparr>"

text \<open>\<^verbatim>\<open>Buffer.from(s, 'hex')\<close>: pairs of hexadecimal digits, up to the first pair that is not one.\<close>

definition hex_digit :: "char \<Rightarrow> nat option" where
  "hex_digit c =
     (let n = (of_char c :: nat)
      in if 48 \<le> n \<and> n \<le> 57 then Some (n - 48)
         else if 97 \<le> n \<and> n \<le> 102 then Some (n - 87)
         else if 65 \<le> n \<and> n \<le> 70 then Some (n - 55)
         else None)"

fun Buffer_from_hex :: "string \<Rightarrow> Buffer" where
  "Buffer_from_hex (a # b # cs) =
     (case (hex_digit a, hex_digit b) of
        (Some x, Some y) \<Rightarrow> word_of_nat (16 * x + y) # Buffer_from_hex cs
      | _ \<Rightarrow> [])"
| "Buffer_from_hex _ = []"

text \<open>
  \<^verbatim>\<open>Math.floor(Math.random() * 128)\<close>: the draw is an input \<open>random\<close> with
  \<open>0 \<le> random < 1\<close>. Scaling a double by 128 is exact, so the floor is that of the
  real number.
\<close>

definition createVersionNegotiationPacket ::
  "Constants \<Rightarrow> Connection \<Rightarrow> real \<Rightarrow> VersionNegotiationPacket" where
  "createVersionNegotiationPacket C connection random =
     (let header = new_VersionNegotiationHeader_factory \<lfloor>random * 128\<rfloor>
                     (conn_destConnectionID connection) (conn_initialDestConnectionID connection);
          versions = map Buffer_from_hex (SUPPORTED_VERSIONS C)
      in \<lparr> vnp_header = header, vnp_versions = versions \<rparr>)"

text \<open>
  \<^verbatim>\<open>createInitialPacket\<close>. The log statement reads \<^verbatim>\<open>initial.getFrames()[0].getType()\<close>,
  which raises a TypeError when there is no frame.
\<close>

definition createInitialPacket ::
  "Constants \<Rightarrow> (LongHeader \<Rightarrow> int) \<Rightarrow> Connection \<Rightarrow> BaseFrame list \<Rightarrow> error + Packet" where
  "createInitialPacket C headerSize connection frames =
     (let dstConnectionID =
            (case conn_destConnectionID connection of
               None \<Rightarrow> conn_initialDestConnectionID connection
             | Some d \<Rightarrow> d);
          header = new_LongHeader_factory LongHeaderType_Initial dstConnectionID
                     (conn_srcConnectionID connection) (PacketNumber_Number 0) 0
                     (conn_version connection);
          initial = \<lparr> pkt_type = Initial, pkt_header = header, pkt_frames = frames \<rparr>;
          size' = getSize headerSize initial
      in case pkt_frames initial of
           [] \<Rightarrow> Inl TypeError
         | first # _ \<Rightarrow>
             let initial =
                   (if size' < INITIAL_MIN_SIZE C then
                      let padding = PaddingFrame (INITIAL_MIN_SIZE C - size')
                      in initial\<lparr> pkt_frames := pkt_frames initial @ [padding] \<rparr>
                    else initial);
                 header = setPayloadLength header (getFrameSizes initial + DEFAULT_AEAD_LENGTH C)
             in Inr (initial\<lparr> pkt_header := header \<rparr>))"

definition createHandshakePacket :: "Constants \<Rightarrow> Connection \<Rightarrow> BaseFrame list \<Rightarrow> Packet" where
  "createHandshakePacket C connection frames =
     (let dstConnectionID =
            (case conn_destConnectionID connection of
               None \<Rightarrow> conn_initialDestConnectionID connection
             | Some d \<Rightarrow> d);
          header = new_LongHeader_factory LongHeaderType_Handshake dstConnectionID
                     (conn_srcConnectionID connection) (PacketNumber_Number (- 1)) (- 1)
                     (conn_version connection);
          packet = \<lparr> pkt_type = Handshake, pkt_header = header, pkt_frames = frames \<rparr>;
          header = setPayloadLength header (getFrameSizes packet + DEFAULT_AEAD_LENGTH C)
      in packet\<lparr> pkt_header := header \<rparr>)"

definition createProtected0RTTPacket :: "Constants \<Rightarrow> Connection \<Rightarrow> BaseFrame list \<Rightarrow> Packet" where
  "createProtected0RTTPacket C connection frames =
     (let header = new_LongHeader_factory LongHeaderType_Protected0RTT
                     (conn_initialDestConnectionID connection)
                     (conn_srcConnectionID connection) (PacketNumber_Number (- 1)) (- 1)
                     (conn_version connection);
          packet = \<lparr> pkt_type = Protected0RTT, pkt_header = header, pkt_frames = frames \<rparr>;
          header = setPayloadLength header (getFrameSizes packet + DEFAULT_AEAD_LENGTH C)
      in packet\<lparr> pkt_header := header \<rparr>)"

section \<open>Properties of the header parser\<close>

subsection \<open>Evaluation on concrete buffers\<close>

lemmas parser_eval =
  parse_def parse_loop.simps parseHeader_def parseLongHeader_def parseShortHeader_def
  parseVersionNegotiationHeader_def parseInitialTokens_def VLIE_decode_def be_value_def
  Buffer_readUInt8_def Buffer_slice_def Buffer_alloc_def Buffer_copy_def kMaxLength_def
  decodeConnectionIDLength_def IsVersionNegotationFlag_def
  LongHeaderType_Retry_def LongHeaderType_Initial_def
  new_LongHeader_def new_ShortHeader_def new_VersionNegotiationHeader_def
  lh_setTruncatedPacketNumber_def sh_setTruncatedPacketNumber_def Let_def drop_bit_eq_div

subsection \<open>The shape of a successful parse\<close>

lemma parseVersionNegotiationHeader_InrE:
  assumes "parseVersionNegotiationHeader buf offset type = Inr ho"
  obtains c where
    "Buffer_readUInt8 buf offset = Inr c"
    "ho_offset ho = offset + 1 + decodeConnectionIDLength (drop_bit 4 c)
                      + decodeConnectionIDLength (c AND 15)"
    "ho_header ho = VersionNegotiationHdr
       \<lparr> vn_type = None,
         vn_destConnectionID = Some
           \<lparr> cid_buffer = Buffer_slice buf (offset + 1)
                            (offset + 1 + decodeConnectionIDLength (drop_bit 4 c)),
             cid_length = decodeConnectionIDLength (drop_bit 4 c) \<rparr>,
         vn_srcConnectionID =
           \<lparr> cid_buffer = Buffer_slice buf (offset + 1 + decodeConnectionIDLength (drop_bit 4 c))
                            (offset + 1 + decodeConnectionIDLength (drop_bit 4 c)
                               + decodeConnectionIDLength (c AND 15)),
             cid_length = decodeConnectionIDLength (c AND 15) \<rparr> \<rparr>"
  using assms
  by (auto simp: parseVersionNegotiationHeader_def Let_def new_VersionNegotiationHeader_def add_ac
      split: sum.splits)

lemma parseShortHeader_InrE:
  assumes "parseShortHeader buf offset = Inr ho"
  obtains b0 dcil destConIDBuffer s where
    "Buffer_readUInt8 buf offset = Inr b0"
    "Buffer_readUInt8 buf (offset + 1) = Inr dcil"
    "ho_offset ho = offset + 1 + dcil + ((b0 - 64) AND 3) + 1"
    "ho_header ho = ShortHdr s"
    "sh_destConnectionID s = \<lparr> cid_buffer = destConIDBuffer, cid_length = dcil \<rparr>"
    "sh_keyPhaseBit s = ((b0 - 64) AND 4 = 4)"
    "sh_spinBit s = ((b0 - 64) AND 32 = 32)"
    "sh_truncatedPacketNumber s =
       Some (PacketNumber_Buffer (Buffer_slice buf (offset + 1 + dcil)
                                   (offset + 1 + dcil + ((b0 - 64) AND 3) + 1)))"
    "sh_largestAcked s = Some (PacketNumber_Bignum 0)"
    "sh_parsedBuffer s = Some (Buffer_slice buf offset (ho_offset ho))"
  using assms
  apply (simp add: parseShortHeader_def Let_def new_ShortHeader_def sh_setTruncatedPacketNumber_def
      split: sum.splits)
  apply (auto simp: add_ac)
  done

lemma parseLongHeader_cases:
  assumes "parseLongHeader buf offset = Inr ho"
  obtains (VersionNegotiation) b0 where
      "Buffer_readUInt8 buf offset = Inr b0"
      "drop_bit 4 (b0 - 192) \<noteq> LongHeaderType_Retry"
      "IsVersionNegotationFlag (Buffer_slice buf (offset + 1) (offset + 5))"
      "parseVersionNegotiationHeader buf (offset + 5) (drop_bit 4 (b0 - 192)) = Inr ho"
  | (Long) l where "ho_header ho = LongHdr l"
  using assms
  apply (simp add: parseLongHeader_def Let_def split: sum.splits if_splits prod.splits)
  apply (auto simp: add_ac)
  done

lemma nibble_bounds:
  assumes "0 \<le> (c::int)" and "c < 256"
  shows "0 \<le> drop_bit 4 c \<and> drop_bit 4 c \<le> 15 \<and> 0 \<le> c AND 15 \<and> c AND 15 \<le> 15"
proof -
  have "0 \<le> c div 16 \<and> c div 16 \<le> 15" using assms by arith
  then show ?thesis by (simp add: drop_bit_eq_div AND_upper2)
qed

lemma and3_shift: "((x::int) - 192) AND 3 = x AND 3" "((x::int) - 64) AND 3 = x AND 3"
proof -
  have m: "\<And>y::int. y AND 3 = y mod 4"
    using take_bit_eq_mask [of 2, where ?'a = int] by (simp add: take_bit_eq_mod mask_eq_exp_minus_1)
  show "((x::int) - 192) AND 3 = x AND 3" unfolding m by presburger
  show "((x::int) - 64) AND 3 = x AND 3" unfolding m by presburger
qed

lemma and_exp_eq_exp_iff_bit: "((x::int) AND 2 ^ n = 2 ^ n) \<longleftrightarrow> bit x n"
  unfolding bit_eq_iff [of "x AND 2 ^ n" "2 ^ n"]
  by (auto simp: bit_and_iff bit_exp_iff)

lemma and_128_iff_bit: "((x::int) AND 128 = 128) \<longleftrightarrow> bit x 7"
  using and_exp_eq_exp_iff_bit [of x 7] by simp

lemma long_bit_iff:
  assumes "0 \<le> (x::int)" and "x < 256"
  shows "(x AND 0x80 = 0x80) \<longleftrightarrow> 128 \<le> x"
proof -
  have "bit x 7 \<longleftrightarrow> odd (x div 128)"
    by (simp add: bit_iff_odd_drop_bit drop_bit_eq_div)
  also have "\<dots> \<longleftrightarrow> 128 \<le> x"
  proof
    assume "odd (x div 128)"
    then have "x div 128 \<noteq> 0" by auto
    then show "128 \<le> x" using assms by arith
  next
    assume "128 \<le> x"
    with assms have "x div 128 = 1" by arith
    then show "odd (x div 128)" by simp
  qed
  finally show ?thesis by (simp add: and_128_iff_bit)
qed

lemma retry_type_iff:
  assumes "0 \<le> (x::int)" and "x < 256"
  shows "drop_bit 4 (x - 192) = 3 \<longleftrightarrow> 240 \<le> x"
  using assms by (simp add: drop_bit_eq_div) arith

lemma Buffer_slice_in_range:
  assumes "0 \<le> s" and "s \<le> e" and "e \<le> int (length buf)"
  shows "Buffer_slice buf s e = take (nat (e - s)) (drop (nat s) buf)"
    and "int (length (Buffer_slice buf s e)) = e - s"
  using assms by (auto simp: Buffer_slice_def Let_def)

lemma parseShortHeader_offset:
  assumes "parseShortHeader buf offset = Inr ho"
  shows "0 \<le> offset \<and> offset + 2 \<le> ho_offset ho"
proof -
  from assms obtain b0 dcil where
    b: "Buffer_readUInt8 buf offset = Inr b0" and
    d: "Buffer_readUInt8 buf (offset + 1) = Inr dcil" and
    off: "ho_offset ho = offset + 1 + dcil + ((b0 - 64) AND 3) + 1"
    by (rule parseShortHeader_InrE)
  from b d have "0 \<le> offset" "0 \<le> dcil" by (auto dest: Buffer_readUInt8_InrD)
  moreover obtain k where "0 \<le> k" "ho_offset ho = offset + 1 + dcil + k + 1"
    using off by (intro that [of "(b0 - 64) AND 3"]) simp_all
  ultimately show ?thesis by auto
qed

lemma parseVersionNegotiationHeader_offset:
  assumes "parseVersionNegotiationHeader buf offset type = Inr ho"
  shows "0 \<le> offset \<and> offset + 1 \<le> ho_offset ho"
proof -
  from assms obtain c where
    c: "Buffer_readUInt8 buf offset = Inr c" and
    off: "ho_offset ho = offset + 1 + decodeConnectionIDLength (drop_bit 4 c)
                      + decodeConnectionIDLength (c AND 15)"
    by (rule parseVersionNegotiationHeader_InrE)
  from c have "0 \<le> c" "0 \<le> offset" by (auto dest: Buffer_readUInt8_InrD)
  with conLengths_nonneg [of c] off show ?thesis by auto
qed

lemma parseHeader_offset:
  assumes "parseHeader buf offset = Inr ho"
  shows "0 \<le> offset \<and> offset < ho_offset ho"
proof -
  from assms have r: "0 \<le> offset"
    by (auto simp: parseHeader_def split: sum.splits dest: Buffer_readUInt8_InrD)
  from assms consider "parseLongHeader buf offset = Inr ho" | "parseShortHeader buf offset = Inr ho"
    by (auto simp: parseHeader_def split: sum.splits if_splits)
  then show ?thesis
  proof cases
    case 1
    then show ?thesis
    proof (cases rule: parseLongHeader_cases)
      case (VersionNegotiation b0)
      from parseVersionNegotiationHeader_offset [OF VersionNegotiation(4)] r show ?thesis by auto
    next
      case (Long l)
      from parseLongHeader_offset [OF 1 Long] r show ?thesis by auto
    qed
  next
    case 2
    from parseShortHeader_offset [OF 2] show ?thesis by auto
  qed
qed

subsection \<open>Connection-ID lengths\<close>

lemma connection_id_lengths_intro:
  assumes "0 \<le> dc \<and> dc \<le> 15 \<and> 0 \<le> sc \<and> sc \<le> 15"
    and "map_option cid_length D = Some (decodeConnectionIDLength dc)"
    and "map_option cid_length S = Some (decodeConnectionIDLength sc)"
  shows "\<exists>dcil scil.
           map_option cid_length D = Some dcil \<and>
           map_option cid_length S = Some scil \<and>
           0 \<le> dc \<and> dc \<le> 15 \<and> 0 \<le> sc \<and> sc \<le> 15 \<and>
           dcil = (if dc = 0 then 0 else dc + 3) \<and>
           scil = (if sc = 0 then 0 else sc + 3) \<and>
           (dcil = 0 \<or> (4 \<le> dcil \<and> dcil \<le> 18)) \<and>
           (scil = 0 \<or> (4 \<le> scil \<and> scil \<le> 18))"
  using assms by (auto simp: decodeConnectionIDLength_def)

text \<open>
  Claim C6. The connection-ID-length byte of a long header (also of a version
  negotiation header) sits five bytes after the first byte. Each of its nibbles is a
  code in \<open>0..15\<close>, and the length the parser attaches to the connection ID is 0 for
  the code 0 and the code plus 3 otherwise, hence 0 or in \<open>4..18\<close>.
\<close>

theorem connection_id_length_law:
  assumes "parseLongHeader buf offset = Inr ho"
  shows "\<exists>c dcil scil.
           Buffer_readUInt8 buf (offset + 5) = Inr c \<and>
           map_option cid_length (getDestConnectionID (ho_header ho)) = Some dcil \<and>
           map_option cid_length (getSrcConnectionID (ho_header ho)) = Some scil \<and>
           0 \<le> drop_bit 4 c \<and> drop_bit 4 c \<le> 15 \<and> 0 \<le> c AND 15 \<and> c AND 15 \<le> 15 \<and>
           dcil = (if drop_bit 4 c = 0 then 0 else drop_bit 4 c + 3) \<and>
           scil = (if c AND 15 = 0 then 0 else (c AND 15) + 3) \<and>
           (dcil = 0 \<or> (4 \<le> dcil \<and> dcil \<le> 18)) \<and>
           (scil = 0 \<or> (4 \<le> scil \<and> scil \<le> 18))"
  using assms
proof (cases rule: parseLongHeader_cases)
  case (VersionNegotiation b0)
  from VersionNegotiation(4) obtain c where
    c: "Buffer_readUInt8 buf (offset + 5) = Inr c" and
    h: "ho_header ho = VersionNegotiationHdr
       \<lparr> vn_type = None,
         vn_destConnectionID = Some
           \<lparr> cid_buffer = Buffer_slice buf (offset + 5 + 1)
                            (offset + 5 + 1 + decodeConnectionIDLength (drop_bit 4 c)),
             cid_length = decodeConnectionIDLength (drop_bit 4 c) \<rparr>,
         vn_srcConnectionID =
           \<lparr> cid_buffer = Buffer_slice buf (offset + 5 + 1 + decodeConnectionIDLength (drop_bit 4 c))
                            (offset + 5 + 1 + decodeConnectionIDLength (drop_bit 4 c)
                               + decodeConnectionIDLength (c AND 15)),
             cid_length = decodeConnectionIDLength (c AND 15) \<rparr> \<rparr>"
    by (rule parseVersionNegotiationHeader_InrE)
  from c have "0 \<le> c" "c < 256" by (auto dest: Buffer_readUInt8_InrD)
  then have nb: "0 \<le> drop_bit 4 c \<and> drop_bit 4 c \<le> 15 \<and> 0 \<le> c AND 15 \<and> c AND 15 \<le> 15"
    by (rule nibble_bounds)
  have "map_option cid_length (getDestConnectionID (ho_header ho))
          = Some (decodeConnectionIDLength (drop_bit 4 c))"
       "map_option cid_length (getSrcConnectionID (ho_header ho))
          = Some (decodeConnectionIDLength (c AND 15))"
    by (simp_all add: h getDestConnectionID_def getSrcConnectionID_def)
  from connection_id_lengths_intro [OF nb this] c show ?thesis by blast
next
  case (Long l)
  from assms Long obtain c where
    c: "Buffer_readUInt8 buf (offset + 5) = Inr c" and
    d: "lh_destConnectionID l =
       \<lparr> cid_buffer = Buffer_slice buf (offset + 6)
                        (offset + 6 + decodeConnectionIDLength (drop_bit 4 c)),
         cid_length = decodeConnectionIDLength (drop_bit 4 c) \<rparr>" and
    s: "lh_srcConnectionID l =
       \<lparr> cid_buffer = Buffer_slice buf (offset + 6 + decodeConnectionIDLength (drop_bit 4 c))
                        (offset + 6 + decodeConnectionIDLength (drop_bit 4 c)
                           + decodeConnectionIDLength (c AND 15)),
         cid_length = decodeConnectionIDLength (c AND 15) \<rparr>"
    by (rule parseLongHeader_LongE)
  from c have "0 \<le> c" "c < 256" by (auto dest: Buffer_readUInt8_InrD)
  then have nb: "0 \<le> drop_bit 4 c \<and> drop_bit 4 c \<le> 15 \<and> 0 \<le> c AND 15 \<and> c AND 15 \<le> 15"
    by (rule nibble_bounds)
  have "map_option cid_length (getDestConnectionID (ho_header ho))
          = Some (decodeConnectionIDLength (drop_bit 4 c))"
       "map_option cid_length (getSrcConnectionID (ho_header ho))
          = Some (decodeConnectionIDLength (c AND 15))"
    by (simp_all add: Long d s getDestConnectionID_def getSrcConnectionID_def)
  from connection_id_lengths_intro [OF nb this] c show ?thesis by blast
qed

theorem connection_id_length_law_witness:
  "\<exists>ho. parseLongHeader [0xC0, 0, 0, 0, 1, 0x15, 1, 2, 3, 4, 5, 6, 7, 8, 9, 10, 11, 12, 0x02, 9, 8,
                           0x41, 0x00, 1, 0xAA] 0 = Inr ho \<and>
        map_option cid_length (getDestConnectionID (ho_header ho)) = Some 4 \<and>
        map_option cid_length (getSrcConnectionID (ho_header ho)) = Some 8"
proof -
  let ?buf = "[0xC0, 0, 0, 0, 1, 0x15, 1, 2, 3, 4, 5, 6, 7, 8, 9, 10, 11, 12, 0x02, 9, 8,
               0x41, 0x00, 1, 0xAA] :: Buffer"
  obtain ho where p: "parseLongHeader ?buf 0 = Inr ho"
    by (cases "parseLongHeader ?buf 0") (auto simp: parser_eval)
  have c: "Buffer_readUInt8 ?buf (0 + 5) = Inr 0x15"
    by (simp add: Buffer_readUInt8_def)
  from connection_id_length_law [OF p] c p show ?thesis
    by (auto simp: drop_bit_eq_div)
qed

subsection \<open>The packet number\<close>

text \<open>
  Claim C9. Every LongHeader and ShortHeader the parser returns has its truncated
  packet number attached together with the last-acknowledged packet number
  \<open>Bignum 0\<close>: a fixed placeholder, since the parser's only inputs are the buffer and
  the offset. The truncated packet number is the last \<open>pnLength\<close> bytes of the header,
  where \<open>pnLength\<close> is the low two bits of the first byte plus one.
\<close>

theorem packet_number_against_zero:
  assumes "parseHeader buf offset = Inr ho"
    and "getHeaderType (ho_header ho) \<noteq> HT_VersionNegotiationHeader"
  shows "getLargestAcked (ho_header ho) = Some (PacketNumber_Bignum 0) \<and>
         (\<exists>b0. Buffer_readUInt8 buf offset = Inr b0 \<and>
               getTruncatedPacketNumber (ho_header ho) =
                 Some (PacketNumber_Buffer
                        (Buffer_slice buf (ho_offset ho - ((b0 AND 3) + 1)) (ho_offset ho))))"
proof (cases "ho_header ho")
  case (LongHdr l)
  from assms(1) LongHdr have p: "parseLongHeader buf offset = Inr ho"
    by (auto simp: parseHeader_def split: sum.splits if_splits dest: parseShortHeader_not_Long)
  from p LongHdr show ?thesis
  proof (rule parseLongHeader_LongE)
    fix b0 plv
    assume "Buffer_readUInt8 buf offset = Inr b0"
      "ho_offset ho = vlie_offset plv + ((b0 - 192) AND 3) + 1"
      "lh_truncatedPacketNumber l =
         Some (PacketNumber_Buffer (Buffer_slice buf (vlie_offset plv)
                                     (vlie_offset plv + ((b0 - 192) AND 3) + 1)))"
      "lh_largestAcked l = Some (PacketNumber_Bignum 0)"
    then show ?thesis using LongHdr
      by (simp add: getLargestAcked_def getTruncatedPacketNumber_def and3_shift)
  qed
next
  case (ShortHdr s)
  from assms(1) ShortHdr have p: "parseShortHeader buf offset = Inr ho"
    by (auto simp: parseHeader_def split: sum.splits if_splits
        elim!: parseLongHeader_cases dest!: parseVersionNegotiationHeader_not_Long)
  from p show ?thesis
  proof (rule parseShortHeader_InrE)
    fix b0 dcil s'
    assume "Buffer_readUInt8 buf offset = Inr b0"
      "ho_offset ho = offset + 1 + dcil + ((b0 - 64) AND 3) + 1"
      "ho_header ho = ShortHdr s'"
      "sh_truncatedPacketNumber s' =
         Some (PacketNumber_Buffer (Buffer_slice buf (offset + 1 + dcil)
                                     (offset + 1 + dcil + ((b0 - 64) AND 3) + 1)))"
      "sh_largestAcked s' = Some (PacketNumber_Bignum 0)"
    then show ?thesis
      by (simp add: getLargestAcked_def getTruncatedPacketNumber_def and3_shift add_ac)
  qed
next
  case (VersionNegotiationHdr v)
  then show ?thesis using assms(2) by (simp add: getHeaderType_def)
qed

theorem packet_number_against_zero_witness:
  "\<exists>ho. parseHeader [0x40, 0x02, 0x09, 0x07, 0xAA] 0 = Inr ho \<and>
        getHeaderType (ho_header ho) = HT_ShortHeader \<and>
        getLargestAcked (ho_header ho) = Some (PacketNumber_Bignum 0) \<and>
        getTruncatedPacketNumber (ho_header ho) = Some (PacketNumber_Buffer [0x07])"
proof -
  let ?buf = "[0x40, 0x02, 0x09, 0x07, 0xAA] :: Buffer"
  have p: "parseHeader ?buf 0 = Inr
     \<lparr> ho_header = ShortHdr
         \<lparr> sh_destConnectionID = \<lparr> cid_buffer = [2, 9], cid_length = 2 \<rparr>,
           sh_keyPhaseBit = False, sh_spinBit = False,
           sh_truncatedPacketNumber = Some (PacketNumber_Buffer [7]),
           sh_largestAcked = Some (PacketNumber_Bignum 0),
           sh_parsedBuffer = Some [64, 2, 9, 7] \<rparr>,
       ho_offset = 4 \<rparr>"
    by (simp add: parser_eval)
  have t: "getHeaderType (ho_header
     \<lparr> ho_header = ShortHdr
         \<lparr> sh_destConnectionID = \<lparr> cid_buffer = [2, 9], cid_length = 2 \<rparr>,
           sh_keyPhaseBit = False, sh_spinBit = False,
           sh_truncatedPacketNumber = Some (PacketNumber_Buffer [7]),
           sh_largestAcked = Some (PacketNumber_Bignum 0),
           sh_parsedBuffer = Some [64, 2, 9, 7] \<rparr>,
       ho_offset = 4 \<rparr>) \<noteq> HT_VersionNegotiationHeader"
    by (simp add: getHeaderType_def)
  from packet_number_against_zero [OF p t] p show ?thesis
    by (simp add: getHeaderType_def getTruncatedPacketNumber_def)
qed

subsection \<open>The captured raw bytes\<close>

text \<open>
  Claim C5, as amended. A LongHeader or ShortHeader returned by the parser carries as
  its parsed buffer the slice of the input from the start offset to the offset
  returned; where that offset lies within the buffer, these are exactly the
  \<open>offset - startOffset\<close> bytes from \<open>startOffset\<close> on. A VersionNegotiationHeader
  carries no parsed buffer: \<^verbatim>\<open>parseVersionNegotiationHeader\<close> never calls the setter.
\<close>

theorem parsed_buffer_span:
  assumes "parseHeader buf startOffset = Inr ho"
  shows "(case ho_header ho of
            VersionNegotiationHdr v \<Rightarrow> getParsedBuffer (ho_header ho) = None
          | _ \<Rightarrow> getParsedBuffer (ho_header ho) = Some (Buffer_slice buf startOffset (ho_offset ho))) \<and>
         0 \<le> startOffset \<and> startOffset < ho_offset ho \<and>
         (ho_offset ho \<le> int (length buf) \<longrightarrow>
            Buffer_slice buf startOffset (ho_offset ho) =
              take (nat (ho_offset ho - startOffset)) (drop (nat startOffset) buf) \<and>
            int (length (Buffer_slice buf startOffset (ho_offset ho))) = ho_offset ho - startOffset)"
proof -
  have off: "0 \<le> startOffset \<and> startOffset < ho_offset ho"
    using assms by (rule parseHeader_offset)
  have span: "(case ho_header ho of
            VersionNegotiationHdr v \<Rightarrow> getParsedBuffer (ho_header ho) = None
          | _ \<Rightarrow> getParsedBuffer (ho_header ho) = Some (Buffer_slice buf startOffset (ho_offset ho)))"
  proof (cases "ho_header ho")
    case (LongHdr l)
    from assms LongHdr have p: "parseLongHeader buf startOffset = Inr ho"
      by (auto simp: parseHeader_def split: sum.splits if_splits dest: parseShortHeader_not_Long)
    from p LongHdr have "lh_parsedBuffer l = Some (Buffer_slice buf startOffset (ho_offset ho))"
      by (rule parseLongHeader_LongE)
    then show ?thesis using LongHdr by (simp add: getParsedBuffer_def)
  next
    case (ShortHdr s)
    from assms ShortHdr have p: "parseShortHeader buf startOffset = Inr ho"
      by (auto simp: parseHeader_def split: sum.splits if_splits
          elim!: parseLongHeader_cases dest!: parseVersionNegotiationHeader_not_Long)
    from p show ?thesis
    proof (rule parseShortHeader_InrE)
      fix s'
      assume "ho_header ho = ShortHdr s'"
        "sh_parsedBuffer s' = Some (Buffer_slice buf startOffset (ho_offset ho))"
      then show ?thesis by (simp add: getParsedBuffer_def)
    qed
  next
    case (VersionNegotiationHdr v)
    then show ?thesis by (simp add: getParsedBuffer_def)
  qed
  from off Buffer_slice_in_range [of startOffset "ho_offset ho" buf] span
  show ?thesis by simp
qed

theorem parsed_buffer_span_witness:
  "\<exists>ho. parseHeader [0xC0, 0, 0, 0, 1, 0x15, 1, 2, 3, 4, 5, 6, 7, 8, 9, 10, 11, 12, 0x02, 9, 8,
                      0x41, 0x00, 1, 0xAA] 0 = Inr ho \<and>
        ho_offset ho = 24 \<and>
        getParsedBuffer (ho_header ho) =
          Some [0xC0, 0, 0, 0, 1, 0x15, 1, 2, 3, 4, 5, 6, 7, 8, 9, 10, 11, 12, 0x02, 9, 8,
                0x41, 0x00, 1]"
proof -
  let ?buf = "[0xC0, 0, 0, 0, 1, 0x15, 1, 2, 3, 4, 5, 6, 7, 8, 9, 10, 11, 12, 0x02, 9, 8,
               0x41, 0x00, 1, 0xAA] :: Buffer"
  obtain ho where p: "parseHeader ?buf 0 = Inr ho" and o: "ho_offset ho = 24"
    and l: "getHeaderType (ho_header ho) = HT_LongHeader"
    by (cases "parseHeader ?buf 0") (auto simp: parser_eval getHeaderType_def)
  from parsed_buffer_span [OF p] o l p show ?thesis
    by (cases "ho_header ho") (auto simp: getHeaderType_def)
qed

text \<open>
  The claim as stated fails on a version negotiation packet: the header that comes back
  has no parsed buffer, although six bytes were read.
\<close>

theorem parsed_buffer_version_negotiation_counterexample:
  "parseHeader [0xC0, 0, 0, 0, 0, 0x00] 0 = Inr
     \<lparr> ho_header = VersionNegotiationHdr
         \<lparr> vn_type = None,
           vn_destConnectionID = Some \<lparr> cid_buffer = [], cid_length = 0 \<rparr>,
           vn_srcConnectionID = \<lparr> cid_buffer = [], cid_length = 0 \<rparr> \<rparr>,
       ho_offset = 6 \<rparr> \<and>
   getParsedBuffer (VersionNegotiationHdr
         \<lparr> vn_type = None,
           vn_destConnectionID = Some \<lparr> cid_buffer = [], cid_length = 0 \<rparr>,
           vn_srcConnectionID = \<lparr> cid_buffer = [], cid_length = 0 \<rparr> \<rparr>) = None \<and>
   Buffer_slice [0xC0, 0, 0, 0, 0, 0x00] 0 6 = [0xC0, 0, 0, 0, 0, 0x00]"
  by (simp add: parser_eval getParsedBuffer_def)

subsection \<open>The dispatch on the first byte\<close>

lemma parse_single:
  assumes "parseHeader buf 0 = Inr ho"
    and "getHeaderType (ho_header ho) \<noteq> HT_LongHeader"
  shows "parse buf = Inr [ho]"
  using assms
  by (cases "ho_header ho") (simp_all add: parse_def parse_loop.simps getHeaderType_def)

lemma parse_error:
  assumes "parseHeader buf 0 = Inl e"
  shows "parse buf = Inl e"
  using assms by (simp add: parse_def)

text \<open>
  Claim C2, as amended. When the first byte has the long-header bit set and is below
  \<open>0xF0\<close>, and the four version bytes are all zero, the parser returns what
  \<^verbatim>\<open>parseVersionNegotiationHeader\<close> returns at the fifth byte after the start; a header
  that comes back is a VersionNegotiationHeader, with no packet number and no payload
  length, and it is the only entry of the result of \<open>parse\<close>; and it does come back
  when the connection-ID-length byte is in the buffer. A first byte in
  \<open>0xF0..0xFF\<close> is rejected as a Retry packet before the version is looked at.
\<close>

theorem version_negotiation_sentinel:
  assumes "Buffer_readUInt8 buf offset = Inr b0"
    and "b0 AND 0x80 = 0x80"
    and "b0 < 0xF0"
    and "Buffer_slice buf (offset + 1) (offset + 5) = [0, 0, 0, 0]"
  shows "parseHeader buf offset =
           parseVersionNegotiationHeader buf (offset + 5) (drop_bit 4 (b0 - 0xC0)) \<and>
         (\<forall>ho. parseHeader buf offset = Inr ho \<longrightarrow>
               getHeaderType (ho_header ho) = HT_VersionNegotiationHeader \<and>
               getTruncatedPacketNumber (ho_header ho) = None \<and>
               getPayloadLength (ho_header ho) = None \<and>
               (offset = 0 \<longrightarrow> parse buf = Inr [ho])) \<and>
         (offset + 5 < int (length buf) \<longrightarrow> (\<exists>ho. parseHeader buf offset = Inr ho))"
proof -
  from assms(1) have r: "0 \<le> b0" "b0 < 256" "0 \<le> offset"
    by (auto dest: Buffer_readUInt8_InrD)
  with assms(3) have nr: "drop_bit 4 (b0 - 192) \<noteq> LongHeaderType_Retry"
    by (simp add: retry_type_iff LongHeaderType_Retry_def)
  have eq: "parseHeader buf offset =
           parseVersionNegotiationHeader buf (offset + 5) (drop_bit 4 (b0 - 0xC0))"
    using assms nr
    by (simp add: parseHeader_def parseLongHeader_def Let_def IsVersionNegotationFlag_def add_ac)
  have vn: "getHeaderType (ho_header ho) = HT_VersionNegotiationHeader \<and>
               getTruncatedPacketNumber (ho_header ho) = None \<and>
               getPayloadLength (ho_header ho) = None \<and>
               (offset = 0 \<longrightarrow> parse buf = Inr [ho])"
    if p: "parseHeader buf offset = Inr ho" for ho
  proof -
    from p eq obtain v where v: "ho_header ho = VersionNegotiationHdr v"
      by (auto dest: parseVersionNegotiationHeader_not_Long)
    then have t: "getHeaderType (ho_header ho) \<noteq> HT_LongHeader"
      by (simp add: getHeaderType_def)
    from v parse_single [OF _ t] p show ?thesis
      by (auto simp: getHeaderType_def getTruncatedPacketNumber_def getPayloadLength_def)
  qed
  have ex: "\<exists>ho. parseHeader buf offset = Inr ho" if "offset + 5 < int (length buf)"
    using that r eq
    by (simp add: parseVersionNegotiationHeader_def Buffer_readUInt8_def Let_def)
  from eq vn ex show ?thesis by blast
qed

theorem version_negotiation_sentinel_witness:
  "parseHeader [0xE5, 0, 0, 0, 0, 0x10, 1, 2, 3, 4] 0 =
     parseVersionNegotiationHeader [0xE5, 0, 0, 0, 0, 0x10, 1, 2, 3, 4] 5 2 \<and>
   parse [0xE5, 0, 0, 0, 0, 0x10, 1, 2, 3, 4] = Inr
     [\<lparr> ho_header = VersionNegotiationHdr
          \<lparr> vn_type = None,
            vn_destConnectionID = Some \<lparr> cid_buffer = [1, 2, 3, 4], cid_length = 4 \<rparr>,
            vn_srcConnectionID = \<lparr> cid_buffer = [], cid_length = 0 \<rparr> \<rparr>,
        ho_offset = 10 \<rparr>]"
proof -
  let ?buf = "[0xE5, 0, 0, 0, 0, 0x10, 1, 2, 3, 4] :: Buffer"
  have h: "Buffer_readUInt8 ?buf 0 = Inr 0xE5" "(0xE5::int) AND 0x80 = 0x80" "(0xE5::int) < 0xF0"
    "Buffer_slice ?buf (0 + 1) (0 + 5) = [0, 0, 0, 0]"
    by (simp_all add: Buffer_readUInt8_def Buffer_slice_def)
  have p: "parseVersionNegotiationHeader ?buf 5 2 = Inr
     \<lparr> ho_header = VersionNegotiationHdr
          \<lparr> vn_type = None,
            vn_destConnectionID = Some \<lparr> cid_buffer = [1, 2, 3, 4], cid_length = 4 \<rparr>,
            vn_srcConnectionID = \<lparr> cid_buffer = [], cid_length = 0 \<rparr> \<rparr>,
        ho_offset = 10 \<rparr>"
    by (simp add: parser_eval)
  from version_negotiation_sentinel [OF h] p show ?thesis
    by (simp add: drop_bit_eq_div)
qed

text \<open>
  The claim as stated fails when the type bits are those of Retry: the zero version is
  never reached.
\<close>

theorem version_negotiation_retry_bits_counterexample:
  "Buffer_readUInt8 [0xF0, 0, 0, 0, 0, 0x00] 0 = Inr 0xF0 \<and>
   (0xF0::int) AND 0x80 = 0x80 \<and>
   Buffer_slice [0xF0, 0, 0, 0, 0, 0x00] 1 5 = [0, 0, 0, 0] \<and>
   parseHeader [0xF0, 0, 0, 0, 0, 0x00] 0 = Inl (QuicError PROTOCOL_VIOLATION) \<and>
   parse [0xF0, 0, 0, 0, 0, 0x00] = Inl (QuicError PROTOCOL_VIOLATION) \<and>
   parseVersionNegotiationHeader [0xF0, 0, 0, 0, 0, 0x00] 5 3 = Inr
     \<lparr> ho_header = VersionNegotiationHdr
          \<lparr> vn_type = None,
            vn_destConnectionID = Some \<lparr> cid_buffer = [], cid_length = 0 \<rparr>,
            vn_srcConnectionID = \<lparr> cid_buffer = [], cid_length = 0 \<rparr> \<rparr>,
        ho_offset = 6 \<rparr>"
  by (simp add: parser_eval)

text \<open>
  Claim C3, as amended. A first byte in \<open>0xF0..0xFF\<close> (both marker bits set, type
  bits Retry) makes the parser raise the protocol-violation error; at offset 0 the whole
  of \<open>parse\<close> raises it and no HeaderOffset is produced.
\<close>

theorem retry_rejected:
  assumes "Buffer_readUInt8 buf offset = Inr b0"
    and "0xF0 \<le> b0"
  shows "parseHeader buf offset = Inl (QuicError PROTOCOL_VIOLATION) \<and>
         (offset = 0 \<longrightarrow> parse buf = Inl (QuicError PROTOCOL_VIOLATION))"
proof -
  from assms(1) have r: "0 \<le> b0" "b0 < 256"
    by (auto dest: Buffer_readUInt8_InrD)
  with assms(2) have "b0 AND 0x80 = 0x80" "drop_bit 4 (b0 - 192) = LongHeaderType_Retry"
    by (simp_all add: long_bit_iff retry_type_iff LongHeaderType_Retry_def)
  with assms(1) have "parseHeader buf offset = Inl (QuicError PROTOCOL_VIOLATION)"
    by (simp add: parseHeader_def parseLongHeader_def Let_def)
  then show ?thesis by (auto intro: parse_error)
qed

theorem retry_rejected_witness:
  "parseHeader [0xF3, 0, 0, 0, 1, 0x00, 0x05, 0, 0, 0, 1, 0xAA] 0 = Inl (QuicError PROTOCOL_VIOLATION) \<and>
   parse [0xF3, 0, 0, 0, 1, 0x00, 0x05, 0, 0, 0, 1, 0xAA] = Inl (QuicError PROTOCOL_VIOLATION)"
proof -
  let ?buf = "[0xF3, 0, 0, 0, 1, 0x00, 0x05, 0, 0, 0, 1, 0xAA] :: Buffer"
  have h: "Buffer_readUInt8 ?buf 0 = Inr 0xF3" "(0xF0::int) \<le> 0xF3"
    by (simp_all add: Buffer_readUInt8_def)
  from retry_rejected [OF h] show ?thesis by simp
qed

text \<open>
  The claim as stated covers every first byte that takes the long-header path. With the
  second marker bit clear (\<open>0xB0..0xBF\<close>) the subtraction of \<open>0xC0\<close> leaves a
  negative number, the type computed is \<open>-1\<close>, and a header is returned.
\<close>

theorem retry_bits_without_marker_counterexample:
  "Buffer_readUInt8 [0xB0, 0, 0, 0, 1, 0x00, 0x01, 0x00] 0 = Inr 0xB0 \<and>
   (0xB0::int) AND 0x80 = 0x80 \<and>
   drop_bit 4 (0xB0::int) AND 3 = 3 \<and>
   parse [0xB0, 0, 0, 0, 1, 0x00, 0x01, 0x00] = Inr
     [\<lparr> ho_header = LongHdr
          \<lparr> lh_type = - 1,
            lh_destConnectionID = \<lparr> cid_buffer = [], cid_length = 0 \<rparr>,
            lh_srcConnectionID = \<lparr> cid_buffer = [], cid_length = 0 \<rparr>,
            lh_packetNumber = None, lh_payloadLength = Some 1,
            lh_version = [0, 0, 0, 1], lh_payloadLengthBuffer = Some [1],
            lh_truncatedPacketNumber = Some (PacketNumber_Buffer [0]),
            lh_largestAcked = Some (PacketNumber_Bignum 0),
            lh_initialTokens = None,
            lh_parsedBuffer = Some [0xB0, 0, 0, 0, 1, 0, 1, 0] \<rparr>,
        ho_offset = 8 \<rparr>]"
  by (simp add: parser_eval)

text \<open>
  Every other exception of the parser is a RangeError, so the protocol-violation error
  is raised exactly for a first byte in \<open>0xF0..0xFF\<close>.
\<close>

lemma Buffer_errors:
  "Buffer_readUInt8 buf offset = Inl e \<Longrightarrow> e = RangeError"
  "VLIE_decode buf offset = Inl e \<Longrightarrow> e = RangeError"
  "Buffer_alloc n = Inl e \<Longrightarrow> e = RangeError"
  "Buffer_copy buf target s t = Inl e \<Longrightarrow> e = RangeError"
  by (auto simp: Buffer_readUInt8_def VLIE_decode_def Buffer_alloc_def Buffer_copy_def Let_def
      split: if_splits)

lemma parseInitialTokens_errors:
  "parseInitialTokens buf offset = Inl e \<Longrightarrow> e = RangeError"
  by (auto simp: parseInitialTokens_def Let_def split: sum.splits if_splits dest: Buffer_errors)

lemma parseVersionNegotiationHeader_errors:
  "parseVersionNegotiationHeader buf offset type = Inl e \<Longrightarrow> e = RangeError"
  by (auto simp: parseVersionNegotiationHeader_def Let_def split: sum.splits dest: Buffer_errors)

lemma parseShortHeader_errors:
  "parseShortHeader buf offset = Inl e \<Longrightarrow> e = RangeError"
  by (auto simp: parseShortHeader_def Let_def split: sum.splits dest: Buffer_errors)

lemma parseLongHeader_errors:
  assumes "parseLongHeader buf offset = Inl e" and "Buffer_readUInt8 buf offset = Inr b0"
    and "drop_bit 4 (b0 - 192) \<noteq> LongHeaderType_Retry"
  shows "e = RangeError"
  using assms
  apply (simp add: parseLongHeader_def Let_def split: sum.splits if_splits prod.splits)
  apply (auto dest: Buffer_errors parseVersionNegotiationHeader_errors parseInitialTokens_errors)
  done

lemma parseHeader_protocol_violation_iff:
  assumes "Buffer_readUInt8 buf offset = Inr b0"
  shows "parseHeader buf offset = Inl (QuicError PROTOCOL_VIOLATION) \<longleftrightarrow> 0xF0 \<le> b0"
proof
  assume pv: "parseHeader buf offset = Inl (QuicError PROTOCOL_VIOLATION)"
  from assms have r: "0 \<le> b0" "b0 < 256" by (auto dest: Buffer_readUInt8_InrD)
  show "0xF0 \<le> b0"
  proof (rule ccontr)
    assume "\<not> 0xF0 \<le> b0"
    with r have nr: "drop_bit 4 (b0 - 192) \<noteq> LongHeaderType_Retry"
      by (simp add: retry_type_iff LongHeaderType_Retry_def)
    from pv assms consider "parseLongHeader buf offset = Inl (QuicError PROTOCOL_VIOLATION)"
      | "parseShortHeader buf offset = Inl (QuicError PROTOCOL_VIOLATION)"
      by (auto simp: parseHeader_def split: if_splits)
    then show False
    proof cases
      case 1
      from parseLongHeader_errors [OF 1 assms nr] show False by simp
    next
      case 2
      from parseShortHeader_errors [OF 2] show False by simp
    qed
  qed
next
  assume "0xF0 \<le> b0"
  moreover from assms have "0 \<le> b0" "b0 < 256" by (auto dest: Buffer_readUInt8_InrD)
  ultimately have "b0 AND 0x80 = 0x80" "drop_bit 4 (b0 - 192) = LongHeaderType_Retry"
    by (simp_all add: long_bit_iff retry_type_iff LongHeaderType_Retry_def)
  with assms show "parseHeader buf offset = Inl (QuicError PROTOCOL_VIOLATION)"
    by (simp add: parseHeader_def parseLongHeader_def Let_def)
qed

subsection \<open>The compound-packet loop\<close>

text \<open>
  Every entry of a result but the last is a LongHeader: the loop goes on only after
  one. So a ShortHeader (or a VersionNegotiationHeader) is never followed by another
  entry.
\<close>

lemma parse_loop_invariant:
  assumes "parse_loop buf headerOffset totalSize headerOffsets = Inr r"
    and "headerOffsets \<noteq> []"
    and "last headerOffsets = headerOffset"
    and "list_all isLong (butlast headerOffsets)"
  shows "r \<noteq> [] \<and> list_all isLong (butlast r)"
  using assms
proof (induction buf headerOffset totalSize headerOffsets rule: parse_loop.induct)
  case (1 buf headerOffset totalSize headerOffsets)
  show ?case
  proof (cases "ho_header headerOffset")
    case (LongHdr longHeader)
    show ?thesis
    proof (cases "lh_payloadLength longHeader")
      case None
      with LongHdr "1.prems" show ?thesis by (simp add: parse_loop.simps)
    next
      case (Some payloadLength)
      let ?ts = "totalSize + payloadLength + (ho_offset headerOffset - totalSize)"
      show ?thesis
      proof (cases "?ts < int (length buf)")
        case False
        with LongHdr Some "1.prems" show ?thesis by (simp add: parse_loop.simps Let_def)
      next
        case True
        show ?thesis
        proof (cases "parseHeader buf (?ts - 4)")
          case (Inl e)
          with LongHdr Some True "1.prems"(1) show ?thesis
            by (simp add: parse_loop.simps Let_def)
        next
          case (Inr ho')
          from LongHdr Some True Inr "1.prems"(1)
          have rec: "parse_loop buf ho' ?ts (headerOffsets @ [ho']) = Inr r"
            by (simp add: parse_loop.simps Let_def)
          from LongHdr "1.prems"(2,3) have "isLong (last headerOffsets)"
            by (simp add: isLong_def getHeaderType_def)
          with "1.prems"(2,4) have all: "list_all isLong headerOffsets"
            by (cases headerOffsets rule: rev_cases) auto
          show ?thesis
            by (rule "1.IH" [OF LongHdr Some refl refl True Inr rec]) (simp_all add: all)
        qed
      qed
    qed
  next
    case (ShortHdr s)
    with "1.prems" show ?thesis by (simp add: parse_loop.simps)
  next
    case (VersionNegotiationHdr v)
    with "1.prems" show ?thesis by (simp add: parse_loop.simps)
  qed
qed

lemma parse_only_last_not_long:
  assumes "parse buf = Inr r"
  shows "r \<noteq> [] \<and> list_all isLong (butlast r)"
proof -
  from assms obtain ho where "parseHeader buf 0 = Inr ho" "parse_loop buf ho 0 [ho] = Inr r"
    by (auto simp: parse_def split: sum.splits)
  from parse_loop_invariant [OF this(2)] show ?thesis by simp
qed

text \<open>
  Every entry of a result is what \<open>parseHeader\<close> returns at some offset of the
  datagram, so what holds of every header \<open>parseHeader\<close> returns holds of every entry.
\<close>

lemma parse_loop_entries:
  assumes "parse_loop buf headerOffset totalSize headerOffsets = Inr r"
    and "\<forall>ho \<in> set headerOffsets. \<exists>s. parseHeader buf s = Inr ho"
  shows "\<forall>ho \<in> set r. \<exists>s. parseHeader buf s = Inr ho"
  using assms
proof (induction buf headerOffset totalSize headerOffsets rule: parse_loop.induct)
  case (1 buf headerOffset totalSize headerOffsets)
  show ?case
  proof (cases "ho_header headerOffset")
    case (LongHdr longHeader)
    show ?thesis
    proof (cases "lh_payloadLength longHeader")
      case None
      with LongHdr "1.prems" show ?thesis by (simp add: parse_loop.simps)
    next
      case (Some payloadLength)
      let ?ts = "totalSize + payloadLength + (ho_offset headerOffset - totalSize)"
      show ?thesis
      proof (cases "?ts < int (length buf)")
        case False
        with LongHdr Some "1.prems" show ?thesis by (simp add: parse_loop.simps Let_def)
      next
        case True
        show ?thesis
        proof (cases "parseHeader buf (?ts - 4)")
          case (Inl e)
          with LongHdr Some True "1.prems"(1) show ?thesis
            by (simp add: parse_loop.simps Let_def)
        next
          case (Inr ho')
          from LongHdr Some True Inr "1.prems"(1)
          have rec: "parse_loop buf ho' ?ts (headerOffsets @ [ho']) = Inr r"
            by (simp add: parse_loop.simps Let_def)
          have "\<forall>ho \<in> set (headerOffsets @ [ho']). \<exists>s. parseHeader buf s = Inr ho"
            using "1.prems"(2) Inr by auto
          with "1.IH" [OF LongHdr Some refl refl True Inr rec] show ?thesis .
        qed
      qed
    qed
  next
    case (ShortHdr s)
    with "1.prems" show ?thesis by (simp add: parse_loop.simps)
  next
    case (VersionNegotiationHdr v)
    with "1.prems" show ?thesis by (simp add: parse_loop.simps)
  qed
qed

lemma parse_entries:
  assumes "parse buf = Inr r" and "ho \<in> set r"
  shows "\<exists>s. parseHeader buf s = Inr ho"
proof -
  from assms(1) obtain ho0 where "parseHeader buf 0 = Inr ho0" "parse_loop buf ho0 0 [ho0] = Inr r"
    by (auto simp: parse_def split: sum.splits)
  from parse_loop_entries [OF this(2)] this(1) assms(2) show ?thesis by auto
qed

text \<open>
  Parsing at an offset behind a prefix is parsing the rest of the buffer at that offset
  less the prefix: every read is by absolute position, and the clamping of slices and
  copies is at the end of the buffer, which the two share.
\<close>

lemma Buffer_readUInt8_append_shift:
  "0 \<le> offset \<Longrightarrow>
     Buffer_readUInt8 (p1 @ p2) (int (length p1) + offset) = Buffer_readUInt8 p2 offset"
  by (auto simp: Buffer_readUInt8_def nth_append nat_add_distrib)

lemma Buffer_slice_append_shift:
  "0 \<le> s \<Longrightarrow> 0 \<le> e \<Longrightarrow>
     Buffer_slice (p1 @ p2) (int (length p1) + s) (int (length p1) + e) = Buffer_slice p2 s e"
  by (auto simp: Buffer_slice_def Let_def nat_add_distrib min_def)

lemma Buffer_copy_append_shift:
  "0 \<le> s \<Longrightarrow> 0 \<le> e \<Longrightarrow>
     Buffer_copy (p1 @ p2) target (int (length p1) + s) (int (length p1) + e)
       = Buffer_copy p2 target s e"
  by (auto simp: Buffer_copy_def Let_def nat_add_distrib)

lemma VLIE_decode_append_shift:
  "0 \<le> offset \<Longrightarrow>
     VLIE_decode (p1 @ p2) (int (length p1) + offset) =
       map_sum id (\<lambda>r. r\<lparr> vlie_offset := int (length p1) + vlie_offset r \<rparr>) (VLIE_decode p2 offset)"
  by (auto simp: VLIE_decode_def Let_def nth_append nat_add_distrib add_ac)

lemma decode_uint_nonneg:
  "0 \<le> decodeConnectionIDLength (drop_bit 4 (uint (b::byte)))"
  "0 \<le> decodeConnectionIDLength (uint (b::byte) AND 15)"
  by (simp_all add: decodeConnectionIDLength_def)

lemma parseVersionNegotiationHeader_append_shift:
  assumes "0 \<le> offset"
  shows "parseVersionNegotiationHeader (p1 @ p2) (int (length p1) + offset) type =
     map_sum id (\<lambda>ho. ho\<lparr> ho_offset := int (length p1) + ho_offset ho \<rparr>)
       (parseVersionNegotiationHeader p2 offset type)"
proof (cases "Buffer_readUInt8 p2 offset")
  case (Inl e)
  then show ?thesis using assms
    by (simp add: parseVersionNegotiationHeader_def Buffer_readUInt8_append_shift)
next
  case (Inr c)
  then have c: "c = uint (p2 ! nat offset)" by (auto dest: Buffer_readUInt8_InrD)
  show ?thesis using assms Inr
    by (simp add: parseVersionNegotiationHeader_def Buffer_readUInt8_append_shift Let_def
        add.assoc Buffer_slice_append_shift c new_VersionNegotiationHeader_def decode_uint_nonneg)
qed

lemma parseInitialTokens_append_shift:
  assumes "0 \<le> offset"
  shows "parseInitialTokens (p1 @ p2) (int (length p1) + offset) =
     map_sum id (\<lambda>(t, off). (t, int (length p1) + off)) (parseInitialTokens p2 offset)"
proof (cases "VLIE_decode p2 offset")
  case (Inl e)
  then show ?thesis using assms
    by (simp add: parseInitialTokens_def VLIE_decode_append_shift)
next
  case (Inr r)
  then have r: "0 \<le> vlie_offset r" "0 \<le> vlie_value r"
    by (auto dest: VLIE_decode_InrD)
  show ?thesis using assms Inr r
    by (simp add: parseInitialTokens_def VLIE_decode_append_shift Let_def add.assoc
        Buffer_copy_append_shift split: sum.splits)
qed

lemma parseShortHeader_append_shift:
  assumes "0 \<le> offset"
  shows "parseShortHeader (p1 @ p2) (int (length p1) + offset) =
     map_sum id (\<lambda>ho. ho\<lparr> ho_offset := int (length p1) + ho_offset ho \<rparr>)
       (parseShortHeader p2 offset)"
proof (cases "Buffer_readUInt8 p2 offset")
  case (Inl e)
  then show ?thesis using assms
    by (simp add: parseShortHeader_def Buffer_readUInt8_append_shift)
next
  case b0: (Inr b0)
  show ?thesis
  proof (cases "Buffer_readUInt8 p2 (offset + 1)")
    case (Inl e)
    then show ?thesis using assms b0
      by (simp add: parseShortHeader_def Buffer_readUInt8_append_shift Let_def add.assoc)
  next
    case (Inr dcil)
    then have d: "0 \<le> dcil" by (auto dest: Buffer_readUInt8_InrD)
    have pn: "0 \<le> (b0 - 64) AND 3" by simp
    show ?thesis using assms b0 Inr d
      by (simp add: parseShortHeader_def Buffer_readUInt8_append_shift Let_def add.assoc
          Buffer_copy_append_shift Buffer_slice_append_shift new_ShortHeader_def
          sh_setTruncatedPacketNumber_def split: sum.splits)
  qed
qed

lemma parseLongHeader_append_shift:
  assumes "0 \<le> offset"
  shows "parseLongHeader (p1 @ p2) (int (length p1) + offset) =
     map_sum id (\<lambda>ho. ho\<lparr> ho_offset := int (length p1) + ho_offset ho \<rparr>)
       (parseLongHeader p2 offset)"
proof (cases "Buffer_readUInt8 p2 offset")
  case (Inl e)
  then show ?thesis using assms
    by (simp add: parseLongHeader_def Buffer_readUInt8_append_shift)
next
  case b0: (Inr b0)
  show ?thesis
  proof (cases "drop_bit 4 (b0 - 192) = LongHeaderType_Retry")
    case True
    then show ?thesis using assms b0
      by (simp add: parseLongHeader_def Buffer_readUInt8_append_shift Let_def)
  next
    case nr: False
    show ?thesis
    proof (cases "IsVersionNegotationFlag (Buffer_slice p2 (offset + 1) (offset + 5))")
      case True
      then show ?thesis using assms b0 nr
        by (simp add: parseLongHeader_def Buffer_readUInt8_append_shift Let_def add.assoc
            Buffer_slice_append_shift parseVersionNegotiationHeader_append_shift)
    next
      case nv: False
      show ?thesis
      proof (cases "Buffer_readUInt8 p2 (offset + 5)")
        case (Inl e)
        then show ?thesis using assms b0 nr nv
          by (simp add: parseLongHeader_def Buffer_readUInt8_append_shift Let_def add.assoc
              Buffer_slice_append_shift)
      next
        case c: (Inr c)
        then have "0 \<le> c" by (auto dest: Buffer_readUInt8_InrD)
        then have ds: "0 \<le> decodeConnectionIDLength (drop_bit 4 c)"
          "0 \<le> decodeConnectionIDLength (c AND 15)"
          by (simp_all add: conLengths_nonneg)
        let ?off0 = "offset + (6 + (decodeConnectionIDLength (drop_bit 4 c)
                        + decodeConnectionIDLength (c AND 15)))"
        let ?tk = "if drop_bit 4 (b0 - 192) = LongHeaderType_Initial
                   then parseInitialTokens p2 ?off0 else Inr (None, ?off0)"
        have off0: "0 \<le> ?off0" using assms ds by simp
        show ?thesis
        proof (cases ?tk)
          case (Inl e)
          then show ?thesis using assms b0 nr nv c ds
            by (simp add: parseLongHeader_def Buffer_readUInt8_append_shift Let_def add.assoc
                Buffer_slice_append_shift parseInitialTokens_append_shift
                split: if_splits)
        next
          case (Inr tko)
          obtain tokens off1 where tko: "tko = (tokens, off1)" by (cases tko)
          have "?off0 \<le> off1"
            using Inr tko by (intro tokens_offset_ge) simp
          with off0 have off1: "0 \<le> off1" by simp
          show ?thesis
          proof (cases "VLIE_decode p2 off1")
            case (Inl e)
            then show ?thesis using assms b0 nr nv c ds Inr tko off1
              by (simp add: parseLongHeader_def Buffer_readUInt8_append_shift Let_def add.assoc
                  Buffer_slice_append_shift parseInitialTokens_append_shift
                  VLIE_decode_append_shift split: if_splits)
          next
            case plv: (Inr plv)
            then have v: "0 \<le> vlie_offset plv" by (auto dest: VLIE_decode_InrD)
            have pn: "0 \<le> (b0 - 192) AND 3" by simp
            show ?thesis
            proof (cases "Buffer_alloc (vlie_offset plv - off1)")
              case (Inl e)
              then show ?thesis using assms b0 nr nv c ds Inr tko off1 plv v
                by (simp add: parseLongHeader_def Buffer_readUInt8_append_shift Let_def add.assoc
                    Buffer_slice_append_shift parseInitialTokens_append_shift
                    VLIE_decode_append_shift split: if_splits)
            next
              case plb0: (Inr plb0)
              show ?thesis
              proof (cases "Buffer_copy p2 plb0 off1 (vlie_offset plv)")
                case (Inl e)
                then show ?thesis using assms b0 nr nv c ds Inr tko off1 plv v plb0
                  by (simp add: parseLongHeader_def Buffer_readUInt8_append_shift Let_def add.assoc
                      Buffer_slice_append_shift parseInitialTokens_append_shift
                      VLIE_decode_append_shift Buffer_copy_append_shift split: if_splits)
              next
                case plb: (Inr plb)
                show ?thesis using assms b0 nr nv c ds Inr tko off1 plv v pn plb0 plb
                  by (simp add: parseLongHeader_def Buffer_readUInt8_append_shift Let_def add.assoc
                      Buffer_slice_append_shift parseInitialTokens_append_shift
                      VLIE_decode_append_shift
                      Buffer_copy_append_shift new_LongHeader_def lh_setTruncatedPacketNumber_def
                      del: and_nonnegative_int_iff
                      split: option.splits if_splits)
              qed
            qed
          qed
        qed
      qed
    qed
  qed
qed

lemma parseHeader_append_shift:
  assumes "0 \<le> offset"
  shows "parseHeader (p1 @ p2) (int (length p1) + offset) =
     map_sum id (\<lambda>ho. ho\<lparr> ho_offset := int (length p1) + ho_offset ho \<rparr>)
       (parseHeader p2 offset)"
  using assms
  by (simp add: parseHeader_def Buffer_readUInt8_append_shift parseLongHeader_append_shift
      parseShortHeader_append_shift split: sum.splits)

lemma parseHeader_at_drop:
  assumes "0 \<le> E" and "E \<le> int (length buf)"
  shows "parseHeader buf E =
     map_sum id (\<lambda>ho. ho\<lparr> ho_offset := E + ho_offset ho \<rparr>) (parseHeader (drop (nat E) buf) 0)"
proof -
  have l: "int (length (take (nat E) buf)) = E" using assms by simp
  have "parseHeader (take (nat E) buf @ drop (nat E) buf) (int (length (take (nat E) buf)) + 0) =
     map_sum id (\<lambda>ho. ho\<lparr> ho_offset := int (length (take (nat E) buf)) + ho_offset ho \<rparr>)
       (parseHeader (drop (nat E) buf) 0)"
    by (rule parseHeader_append_shift) simp
  then show ?thesis unfolding l by simp
qed

lemma parse_loop_stops:
  assumes "getHeaderType (ho_header ho) \<noteq> HT_LongHeader \<or>
           (\<exists>l pl. ho_header ho = LongHdr l \<and> lh_payloadLength l = Some pl \<and>
                   int (length buf) \<le> ho_offset ho + pl)"
  shows "parse_loop buf ho totalSize acc = Inr acc"
  using assms
  by (cases "ho_header ho") (auto simp: parse_loop.simps getHeaderType_def Let_def)

text \<open>
  The loop after a four-byte packet number. When the first header is a LongHeader whose
  packet number is four bytes long, its packet ends at \<open>E\<close>, the offset after the
  header less the packet number plus the payload length. If more than four bytes follow, the second
  entry is the header of the rest of the datagram from \<open>E\<close> on, its offset counted from
  the start of the datagram; and it is the last entry if it is not a LongHeader, or if
  its own packet reaches the end of the datagram.
\<close>

lemma parse_compound_four_byte_pn:
  assumes h1: "parseHeader buf 0 = Inr ho1" "ho_header ho1 = LongHdr l1"
      "lh_payloadLength l1 = Some pl1"
    and pn: "lh_truncatedPacketNumber l1 = Some (PacketNumber_Buffer pn1)" "length pn1 = 4"
    and E: "E = ho_offset ho1 - int (length pn1) + pl1"
    and more: "E + 4 < int (length buf)"
    and h2: "parseHeader (drop (nat E) buf) 0 = Inr ho2"
    and stop: "getHeaderType (ho_header ho2) \<noteq> HT_LongHeader \<or>
           (\<exists>l2 pl2. ho_header ho2 = LongHdr l2 \<and> lh_payloadLength l2 = Some pl2 \<and>
                   int (length buf) \<le> E + ho_offset ho2 + pl2)"
  shows "parse buf = Inr [ho1, ho2\<lparr> ho_offset := E + ho_offset ho2 \<rparr>]"
proof -
  from parseHeader_Long_offset [OF h1(1,2)] h1(3) have b: "8 \<le> ho_offset ho1" "0 \<le> pl1"
    by auto
  with E pn(2) have E': "0 \<le> E" "E = ho_offset ho1 + pl1 - 4" by simp_all
  from more have le: "E \<le> int (length buf)" by simp
  have second: "parseHeader buf (0 + pl1 + (ho_offset ho1 - 0) - 4) =
      Inr (ho2\<lparr> ho_offset := E + ho_offset ho2 \<rparr>)"
    using parseHeader_at_drop [OF E'(1) le] h2 E'(2) by (simp add: add_ac)
  have st: "getHeaderType (ho_header (ho2\<lparr> ho_offset := E + ho_offset ho2 \<rparr>)) \<noteq> HT_LongHeader \<or>
           (\<exists>l pl. ho_header (ho2\<lparr> ho_offset := E + ho_offset ho2 \<rparr>) = LongHdr l \<and>
                   lh_payloadLength l = Some pl \<and>
                   int (length buf) \<le> ho_offset (ho2\<lparr> ho_offset := E + ho_offset ho2 \<rparr>) + pl)"
    using stop by (auto simp: add_ac)
  have "parse_loop buf ho1 0 [ho1] =
          parse_loop buf (ho2\<lparr> ho_offset := E + ho_offset ho2 \<rparr>) (0 + pl1 + (ho_offset ho1 - 0))
            ([ho1] @ [ho2\<lparr> ho_offset := E + ho_offset ho2 \<rparr>])"
    using h1 more E'(2) second
    by (subst parse_loop.simps) (simp add: Let_def)
  also have "\<dots> = Inr ([ho1] @ [ho2\<lparr> ho_offset := E + ho_offset ho2 \<rparr>])"
    using st by (rule parse_loop_stops)
  finally show ?thesis using h1(1) by (simp add: parse_def)
qed

text \<open>
  Claim C1. A datagram of two concatenated long-header packets is to give two entries,
  the second read where the first packet ends: the offset after the first header plus
  its payload length, less the packet-number bytes, which both count. The loop resumes
  at \<open>offset + payloadLength - 4\<close>, whatever the length of the packet number. Below,
  two packets of nine bytes each, both with a one-byte packet number (payload length
  2): the first packet ends at byte 9, where the second LongHeader would be read; the
  second header is read at byte 6, inside the first packet, and comes out as a
  ShortHeader built from bytes of both packets.
\<close>

theorem compound_long_long_misparsed:
  "parseHeader [0xE0, 0, 0, 0, 1, 0x00, 0x02, 0x07, 0xAA] 0 = Inr
     \<lparr> ho_header = LongHdr
         \<lparr> lh_type = 2,
           lh_destConnectionID = \<lparr> cid_buffer = [], cid_length = 0 \<rparr>,
           lh_srcConnectionID = \<lparr> cid_buffer = [], cid_length = 0 \<rparr>,
           lh_packetNumber = None, lh_payloadLength = Some 2,
           lh_version = [0, 0, 0, 1], lh_payloadLengthBuffer = Some [2],
           lh_truncatedPacketNumber = Some (PacketNumber_Buffer [7]),
           lh_largestAcked = Some (PacketNumber_Bignum 0),
           lh_initialTokens = None,
           lh_parsedBuffer = Some [0xE0, 0, 0, 0, 1, 0, 2, 7] \<rparr>,
       ho_offset = 8 \<rparr> \<and>
   parseHeader ([0xE0, 0, 0, 0, 1, 0x00, 0x02, 0x07, 0xAA]
                @ [0xE0, 0, 0, 0, 1, 0x00, 0x02, 0x07, 0xAA]) 9 = Inr
     \<lparr> ho_header = LongHdr
         \<lparr> lh_type = 2,
           lh_destConnectionID = \<lparr> cid_buffer = [], cid_length = 0 \<rparr>,
           lh_srcConnectionID = \<lparr> cid_buffer = [], cid_length = 0 \<rparr>,
           lh_packetNumber = None, lh_payloadLength = Some 2,
           lh_version = [0, 0, 0, 1], lh_payloadLengthBuffer = Some [2],
           lh_truncatedPacketNumber = Some (PacketNumber_Buffer [7]),
           lh_largestAcked = Some (PacketNumber_Bignum 0),
           lh_initialTokens = None,
           lh_parsedBuffer = Some [0xE0, 0, 0, 0, 1, 0, 2, 7] \<rparr>,
       ho_offset = 17 \<rparr> \<and>
   parse ([0xE0, 0, 0, 0, 1, 0x00, 0x02, 0x07, 0xAA]
          @ [0xE0, 0, 0, 0, 1, 0x00, 0x02, 0x07, 0xAA]) = Inr
     [\<lparr> ho_header = LongHdr
          \<lparr> lh_type = 2,
            lh_destConnectionID = \<lparr> cid_buffer = [], cid_length = 0 \<rparr>,
            lh_srcConnectionID = \<lparr> cid_buffer = [], cid_length = 0 \<rparr>,
            lh_packetNumber = None, lh_payloadLength = Some 2,
            lh_version = [0, 0, 0, 1], lh_payloadLengthBuffer = Some [2],
            lh_truncatedPacketNumber = Some (PacketNumber_Buffer [7]),
            lh_largestAcked = Some (PacketNumber_Bignum 0),
            lh_initialTokens = None,
            lh_parsedBuffer = Some [0xE0, 0, 0, 0, 1, 0, 2, 7] \<rparr>,
        ho_offset = 8 \<rparr>,
      \<lparr> ho_header = ShortHdr
          \<lparr> sh_destConnectionID =
              \<lparr> cid_buffer = [7, 0xAA, 0xE0, 0, 0, 0, 1], cid_length = 7 \<rparr>,
            sh_keyPhaseBit = False, sh_spinBit = False,
            sh_truncatedPacketNumber = Some (PacketNumber_Buffer [0, 2, 7]),
            sh_largestAcked = Some (PacketNumber_Bignum 0),
            sh_parsedBuffer = Some [2, 7, 0xAA, 0xE0, 0, 0, 0, 1, 0, 2, 7] \<rparr>,
        ho_offset = 17 \<rparr>]"
  by (simp add: parser_eval)

text \<open>
  Claim C7. A long-header packet followed by a short-header packet is to give exactly
  two entries. Below, a long-header packet of twelve bytes with a one-byte packet number
  (payload length 5), followed by a short-header packet at byte 12: the loop resumes at
  byte 9, a byte of the first packet's payload, which reads as a Retry long header, and
  the whole datagram is rejected.
\<close>

theorem compound_long_short_rejected:
  "parseHeader [0xE0, 0, 0, 0, 1, 0x00, 0x05, 0x07, 0x11, 0xF5, 0x22, 0x33] 0 = Inr
     \<lparr> ho_header = LongHdr
         \<lparr> lh_type = 2,
           lh_destConnectionID = \<lparr> cid_buffer = [], cid_length = 0 \<rparr>,
           lh_srcConnectionID = \<lparr> cid_buffer = [], cid_length = 0 \<rparr>,
           lh_packetNumber = None, lh_payloadLength = Some 5,
           lh_version = [0, 0, 0, 1], lh_payloadLengthBuffer = Some [5],
           lh_truncatedPacketNumber = Some (PacketNumber_Buffer [7]),
           lh_largestAcked = Some (PacketNumber_Bignum 0),
           lh_initialTokens = None,
           lh_parsedBuffer = Some [0xE0, 0, 0, 0, 1, 0, 5, 7] \<rparr>,
       ho_offset = 8 \<rparr> \<and>
   parseHeader [0x40, 0x02, 0x09, 0x07, 0xAA, 0xBB, 0xCC, 0xDD, 0xEE] 0 = Inr
     \<lparr> ho_header = ShortHdr
         \<lparr> sh_destConnectionID = \<lparr> cid_buffer = [2, 9], cid_length = 2 \<rparr>,
           sh_keyPhaseBit = False, sh_spinBit = False,
           sh_truncatedPacketNumber = Some (PacketNumber_Buffer [7]),
           sh_largestAcked = Some (PacketNumber_Bignum 0),
           sh_parsedBuffer = Some [0x40, 2, 9, 7] \<rparr>,
       ho_offset = 4 \<rparr> \<and>
   parseHeader ([0xE0, 0, 0, 0, 1, 0x00, 0x05, 0x07, 0x11, 0xF5, 0x22, 0x33]
                @ [0x40, 0x02, 0x09, 0x07, 0xAA, 0xBB, 0xCC, 0xDD, 0xEE]) 12 = Inr
     \<lparr> ho_header = ShortHdr
         \<lparr> sh_destConnectionID = \<lparr> cid_buffer = [2, 9], cid_length = 2 \<rparr>,
           sh_keyPhaseBit = False, sh_spinBit = False,
           sh_truncatedPacketNumber = Some (PacketNumber_Buffer [7]),
           sh_largestAcked = Some (PacketNumber_Bignum 0),
           sh_parsedBuffer = Some [0x40, 2, 9, 7] \<rparr>,
       ho_offset = 16 \<rparr> \<and>
   parse ([0xE0, 0, 0, 0, 1, 0x00, 0x05, 0x07, 0x11, 0xF5, 0x22, 0x33]
          @ [0x40, 0x02, 0x09, 0x07, 0xAA, 0xBB, 0xCC, 0xDD, 0xEE])
     = Inl (QuicError PROTOCOL_VIOLATION)"
  by (simp add: parser_eval)

text \<open>The same two packets with a four-byte packet number in the first are split as intended,
  and the bytes after the short header are left alone.\<close>

lemma compound_long_short_four_byte_pn:
  "parse ([0xE3, 0, 0, 0, 1, 0x00, 0x08, 0, 0, 0, 7, 0x11, 0xF5, 0x22, 0x33]
          @ [0x40, 0x02, 0x09, 0x07, 0xAA, 0xBB, 0xCC, 0xDD, 0xEE]) = Inr
     [\<lparr> ho_header = LongHdr
          \<lparr> lh_type = 2,
            lh_destConnectionID = \<lparr> cid_buffer = [], cid_length = 0 \<rparr>,
            lh_srcConnectionID = \<lparr> cid_buffer = [], cid_length = 0 \<rparr>,
            lh_packetNumber = None, lh_payloadLength = Some 8,
            lh_version = [0, 0, 0, 1], lh_payloadLengthBuffer = Some [8],
            lh_truncatedPacketNumber = Some (PacketNumber_Buffer [0, 0, 0, 7]),
            lh_largestAcked = Some (PacketNumber_Bignum 0),
            lh_initialTokens = None,
            lh_parsedBuffer = Some [0xE3, 0, 0, 0, 1, 0, 8, 0, 0, 0, 7] \<rparr>,
        ho_offset = 11 \<rparr>,
      \<lparr> ho_header = ShortHdr
          \<lparr> sh_destConnectionID = \<lparr> cid_buffer = [2, 9], cid_length = 2 \<rparr>,
            sh_keyPhaseBit = False, sh_spinBit = False,
            sh_truncatedPacketNumber = Some (PacketNumber_Buffer [7]),
            sh_largestAcked = Some (PacketNumber_Bignum 0),
            sh_parsedBuffer = Some [0x40, 2, 9, 7] \<rparr>,
        ho_offset = 19 \<rparr>]"
  by (simp add: parser_eval)

section \<open>Properties of the packet factory\<close>

lemma createInitialPacket_nonempty:
  assumes "frames \<noteq> []"
  shows "createInitialPacket C headerSize connection frames =
     (let h0 = new_LongHeader_factory LongHeaderType_Initial
                 (case conn_destConnectionID connection of
                    None \<Rightarrow> conn_initialDestConnectionID connection | Some d \<Rightarrow> d)
                 (conn_srcConnectionID connection) (PacketNumber_Number 0) 0
                 (conn_version connection);
          size0 = headerSize h0 + sum_list (map (\<lambda>f. int (length (frame_toBuffer f))) frames);
          frames' = (if size0 < INITIAL_MIN_SIZE C
                     then frames @ [PaddingFrame (INITIAL_MIN_SIZE C - size0)] else frames)
      in Inr \<lparr> pkt_type = Initial,
               pkt_header = setPayloadLength h0
                 (sum_list (map (\<lambda>f. int (length (frame_toBuffer f))) frames')
                    + DEFAULT_AEAD_LENGTH C),
               pkt_frames = frames' \<rparr>)"
  using assms
  by (cases frames) (simp_all add: createInitialPacket_def Let_def getSize_def getFrameSizes_def)

text \<open>
  What the padding step does for a frame sequence that is not empty: a packet is
  returned. If the size taken right after construction (the header still with payload
  length 0) is below the minimum, exactly one padding frame of the missing number of
  bytes is appended, which brings that size to exactly the minimum. If the size is at
  or above the minimum, the frames are returned as given.
\<close>

lemma createInitialPacket_padding_frame:
  assumes "frames \<noteq> []"
  shows "\<exists>p h0.
           createInitialPacket C headerSize connection frames = Inr p \<and>
           pkt_header p = setPayloadLength h0 (getFrameSizes p + DEFAULT_AEAD_LENGTH C) \<and>
           lh_payloadLength h0 = Some 0 \<and>
           (let size0 = getSize headerSize \<lparr> pkt_type = Initial, pkt_header = h0, pkt_frames = frames \<rparr>
            in (size0 < INITIAL_MIN_SIZE C \<longrightarrow>
                  pkt_frames p = frames @ [PaddingFrame (INITIAL_MIN_SIZE C - size0)] \<and>
                  headerSize h0 + getFrameSizes p = INITIAL_MIN_SIZE C) \<and>
               (INITIAL_MIN_SIZE C \<le> size0 \<longrightarrow> pkt_frames p = frames))"
  unfolding createInitialPacket_nonempty [OF assms]
  by (auto simp: Let_def getSize_def getFrameSizes_def new_LongHeader_factory_def frame_toBuffer_def)

text \<open>
  The size of the returned packet. The size is taken before the payload length is set.
  Where the serialized size of the header does not depend on its payload length, the
  returned packet is never below the minimum and is exactly the minimum whenever padding
  was needed. Where it grows with the payload length (here by one byte from 64 on, as
  the shortest variable-length form of the field does), the padded packet is one byte
  above the minimum.
\<close>

lemma createInitialPacket_exact_size:
  assumes "frames \<noteq> []"
    and "\<And>h n. headerSize (setPayloadLength h n) = headerSize h"
    and "createInitialPacket C headerSize connection frames = Inr p"
  shows "INITIAL_MIN_SIZE C \<le> getSize headerSize p \<and>
         (getFrameSizes \<lparr> pkt_type = Initial, pkt_header = pkt_header p, pkt_frames = frames \<rparr>
            + headerSize (pkt_header p) < INITIAL_MIN_SIZE C
          \<longrightarrow> getSize headerSize p = INITIAL_MIN_SIZE C)"
  using assms(3) unfolding createInitialPacket_nonempty [OF assms(1)]
  by (auto simp: Let_def getSize_def getFrameSizes_def assms(2) frame_toBuffer_def)

lemma createInitialPacket_size_growing_header:
  "\<exists>p. createInitialPacket
          \<lparr> INITIAL_MIN_SIZE = 1280, DEFAULT_AEAD_LENGTH = 16, SUPPORTED_VERSIONS = [] \<rparr>
          (\<lambda>h. 29 + (case lh_payloadLength h of None \<Rightarrow> 0 | Some n \<Rightarrow> if n < 64 then 1 else 2))
          \<lparr> conn_destConnectionID = None,
            conn_initialDestConnectionID = \<lparr> cid_buffer = [1, 2, 3, 4], cid_length = 4 \<rparr>,
            conn_srcConnectionID = \<lparr> cid_buffer = [5, 6, 7, 8], cid_length = 4 \<rparr>,
            conn_version = [0, 0, 0, 1], conn_spinBit = False \<rparr>
          [Frame CRYPTO [1, 2, 3]] = Inr p \<and>
        pkt_frames p = [Frame CRYPTO [1, 2, 3], PaddingFrame 1247] \<and>
        getSize (\<lambda>h. 29 + (case lh_payloadLength h of None \<Rightarrow> 0 | Some n \<Rightarrow> if n < 64 then 1 else 2)) p
          = 1281"
  by (simp add: createInitialPacket_def Let_def getSize_def getFrameSizes_def frame_toBuffer_def
      new_LongHeader_factory_def setPayloadLength_def)

text \<open>
  Claim C4. Every frame sequence whose assembled packet is below the minimum size is to
  give a packet of exactly the minimum size. Below, the empty frame sequence with a
  header of 30 bytes and a minimum of 1280: the assembled packet has 30 bytes, so it is
  to be padded to 1280. The statement that logs the size of a first CRYPTO frame reads
  the type of a first frame that is not there: a TypeError is raised before the padding
  step, and no packet is returned.
\<close>

theorem createInitialPacket_empty_frames_raises:
  "getSize (\<lambda>h. 30)
     \<lparr> pkt_type = Initial,
       pkt_header = new_LongHeader_factory LongHeaderType_Initial
         \<lparr> cid_buffer = [1, 2, 3, 4], cid_length = 4 \<rparr>
         \<lparr> cid_buffer = [5, 6, 7, 8], cid_length = 4 \<rparr>
         (PacketNumber_Number 0) 0 [0, 0, 0, 1],
       pkt_frames = [] \<rparr> = 30 \<and>
   createInitialPacket
     \<lparr> INITIAL_MIN_SIZE = 1280, DEFAULT_AEAD_LENGTH = 16, SUPPORTED_VERSIONS = [] \<rparr>
     (\<lambda>h. 30)
     \<lparr> conn_destConnectionID = None,
       conn_initialDestConnectionID = \<lparr> cid_buffer = [1, 2, 3, 4], cid_length = 4 \<rparr>,
       conn_srcConnectionID = \<lparr> cid_buffer = [5, 6, 7, 8], cid_length = 4 \<rparr>,
       conn_version = [0, 0, 0, 1], conn_spinBit = False \<rparr>
     [] = Inl TypeError"
  by (simp add: createInitialPacket_def Let_def getSize_def getFrameSizes_def)

text \<open>
  The payload length of a returned packet. Each of the three factories that returns a
  packet gives its header the total serialized size of the packet's frames (the padding
  frame included) plus \<^verbatim>\<open>DEFAULT_AEAD_LENGTH\<close> as payload length.
  \<^verbatim>\<open>createHandshakePacket\<close> and \<^verbatim>\<open>createProtected0RTTPacket\<close> always return, with the
  frames as given; \<^verbatim>\<open>createInitialPacket\<close> returns for every frame sequence that is not
  empty.
\<close>

lemma payload_length_of_returned_packet:
  "(\<forall>p. createInitialPacket C headerSize connection frames = Inr p \<longrightarrow>
        lh_payloadLength (pkt_header p) = Some (getFrameSizes p + DEFAULT_AEAD_LENGTH C)) \<and>
   (frames \<noteq> [] \<longrightarrow> (\<exists>p. createInitialPacket C headerSize connection frames = Inr p)) \<and>
   lh_payloadLength (pkt_header (createHandshakePacket C connection frames)) =
     Some (getFrameSizes (createHandshakePacket C connection frames) + DEFAULT_AEAD_LENGTH C) \<and>
   pkt_frames (createHandshakePacket C connection frames) = frames \<and>
   lh_payloadLength (pkt_header (createProtected0RTTPacket C connection frames)) =
     Some (getFrameSizes (createProtected0RTTPacket C connection frames) + DEFAULT_AEAD_LENGTH C) \<and>
   pkt_frames (createProtected0RTTPacket C connection frames) = frames"
proof (cases frames)
  case Nil
  then show ?thesis
    by (simp add: createInitialPacket_def createHandshakePacket_def createProtected0RTTPacket_def
        Let_def setPayloadLength_def getFrameSizes_def)
next
  case (Cons f fs)
  then have ne: "frames \<noteq> []" by simp
  show ?thesis
    unfolding createInitialPacket_nonempty [OF ne]
    by (simp add: createHandshakePacket_def createProtected0RTTPacket_def
        Let_def setPayloadLength_def getFrameSizes_def)
qed

text \<open>
  Claim C8. For every connection and every frame sequence each of the three factories is
  to return a packet whose payload length is the size of its frames plus
  \<^verbatim>\<open>DEFAULT_AEAD_LENGTH\<close>. For the empty frame sequence that payload length is
  \<^verbatim>\<open>DEFAULT_AEAD_LENGTH\<close>. \<^verbatim>\<open>createHandshakePacket\<close> and \<^verbatim>\<open>createProtected0RTTPacket\<close>
  return a packet with it and with no frame; \<^verbatim>\<open>createInitialPacket\<close> raises a TypeError
  before it reaches \<^verbatim>\<open>setPayloadLength\<close>, whatever the connection, the constants and the
  size of the header.
\<close>

theorem payload_length_empty_frames:
  "createInitialPacket C headerSize connection [] = Inl TypeError \<and>
   lh_payloadLength (pkt_header (createHandshakePacket C connection [])) =
     Some (DEFAULT_AEAD_LENGTH C) \<and>
   pkt_frames (createHandshakePacket C connection []) = [] \<and>
   lh_payloadLength (pkt_header (createProtected0RTTPacket C connection [])) =
     Some (DEFAULT_AEAD_LENGTH C) \<and>
   pkt_frames (createProtected0RTTPacket C connection []) = []"
  by (simp add: createInitialPacket_def createHandshakePacket_def createProtected0RTTPacket_def
      Let_def setPayloadLength_def getFrameSizes_def)

text \<open>
  Claim C10. The first constructor argument of the header of a version negotiation
  packet is \<open>\<lfloor>random * 128\<rfloor>\<close>, a number in \<open>0..127\<close>, for the draw
  \<open>0 \<le> random < 1\<close>; and for every draw there is another one that gives a different
  header for the same connection.
\<close>

theorem createVersionNegotiationPacket_not_deterministic:
  assumes "0 \<le> random" and "random < 1"
  shows "vn_type (vnp_header (createVersionNegotiationPacket C connection random))
           = Some \<lfloor>random * 128\<rfloor> \<and>
         0 \<le> \<lfloor>random * 128\<rfloor> \<and> \<lfloor>random * 128\<rfloor> < 128 \<and>
         (\<exists>random'. 0 \<le> random' \<and> random' < 1 \<and>
            vnp_header (createVersionNegotiationPacket C connection random')
              \<noteq> vnp_header (createVersionNegotiationPacket C connection random))"
proof -
  have r: "0 \<le> \<lfloor>random * 128\<rfloor>" "\<lfloor>random * 128\<rfloor> < 128"
    using assms by (simp_all add: floor_less_iff)
  have t: "vn_type (vnp_header (createVersionNegotiationPacket C connection x)) = Some \<lfloor>x * 128\<rfloor>" for x
    by (simp add: createVersionNegotiationPacket_def Let_def new_VersionNegotiationHeader_factory_def)
  have "\<exists>random'::real. 0 \<le> random' \<and> random' < 1 \<and> \<lfloor>random' * 128\<rfloor> \<noteq> \<lfloor>random * 128\<rfloor>"
  proof (cases "\<lfloor>random * 128\<rfloor> = 0")
    case True
    have "(0::real) \<le> 1 / 2 \<and> (1::real) / 2 < 1 \<and> \<lfloor>(1 / 2 :: real) * 128\<rfloor> \<noteq> 0" by simp
    with True show ?thesis by metis
  next
    case False
    have "(0::real) \<le> 0 \<and> (0::real) < 1 \<and> \<lfloor>(0::real) * 128\<rfloor> = 0" by simp
    with False show ?thesis by metis
  qed
  then obtain random' :: real where
    b: "0 \<le> random'" "random' < 1" and d: "\<lfloor>random' * 128\<rfloor> \<noteq> \<lfloor>random * 128\<rfloor>"
    by blast
  have ne: "vnp_header (createVersionNegotiationPacket C connection random')
              \<noteq> vnp_header (createVersionNegotiationPacket C connection random)"
  proof
    assume "vnp_header (createVersionNegotiationPacket C connection random')
              = vnp_header (createVersionNegotiationPacket C connection random)"
    then have "vn_type (vnp_header (createVersionNegotiationPacket C connection random'))
              = vn_type (vnp_header (createVersionNegotiationPacket C connection random))"
      by (rule arg_cong)
    then show False using d by (simp only: t option.inject)
  qed
  have "\<exists>random'. 0 \<le> random' \<and> random' < 1 \<and>
            vnp_header (createVersionNegotiationPacket C connection random')
              \<noteq> vnp_header (createVersionNegotiationPacket C connection random)"
    using b ne by (intro exI [of _ random'] conjI)
  with r t [of random] show ?thesis by (intro conjI)
qed

theorem createVersionNegotiationPacket_not_deterministic_witness:
  "vn_type (vnp_header (createVersionNegotiationPacket
       \<lparr> INITIAL_MIN_SIZE = 1280, DEFAULT_AEAD_LENGTH = 16, SUPPORTED_VERSIONS = [''ff000014''] \<rparr>
       \<lparr> conn_destConnectionID = None,
         conn_initialDestConnectionID = \<lparr> cid_buffer = [1, 2, 3, 4], cid_length = 4 \<rparr>,
         conn_srcConnectionID = \<lparr> cid_buffer = [5, 6, 7, 8], cid_length = 4 \<rparr>,
         conn_version = [0, 0, 0, 1], conn_spinBit = False \<rparr>
       (3 / 4))) = Some 96 \<and>
   vn_type (vnp_header (createVersionNegotiationPacket
       \<lparr> INITIAL_MIN_SIZE = 1280, DEFAULT_AEAD_LENGTH = 16, SUPPORTED_VERSIONS = [''ff000014''] \<rparr>
       \<lparr> conn_destConnectionID = None,
         conn_initialDestConnectionID = \<lparr> cid_buffer = [1, 2, 3, 4], cid_length = 4 \<rparr>,
         conn_srcConnectionID = \<lparr> cid_buffer = [5, 6, 7, 8], cid_length = 4 \<rparr>,
         conn_version = [0, 0, 0, 1], conn_spinBit = False \<rparr>
       (1 / 4))) = Some 32"
proof -
  have h: "(0::real) \<le> 3 / 4" "(3::real) / 4 < 1" by simp_all
  have h': "(0::real) \<le> 1 / 4" "(1::real) / 4 < 1" by simp_all
  from createVersionNegotiationPacket_not_deterministic [OF h]
       createVersionNegotiationPacket_not_deterministic [OF h']
  show ?thesis by simp
qed

lemma createVersionNegotiationPacket_versions:
  "vnp_versions (createVersionNegotiationPacket
       \<lparr> INITIAL_MIN_SIZE = 1280, DEFAULT_AEAD_LENGTH = 16, SUPPORTED_VERSIONS = [''ff000014''] \<rparr>
       connection random) = [[0xFF, 0x00, 0x00, 0x14]]"
  by (simp add: createVersionNegotiationPacket_def Let_def hex_digit_def)

end
